theory Spec2Isabelle
  imports Main "HOL-Library.AList" "HOL-Library.Sublist"
begin

section \<open>Data model (shared/schema.ts and scheduler.ts)\<close>

text \<open>
  Every record below follows one interface or table of the source. Field names carry a
  short prefix of the record (\<open>slot_\<close>, \<open>sc_\<close>, \<open>te_\<close>, ...) because several source
  types share field names (\<open>day\<close>, \<open>classId\<close>, \<open>isActive\<close>). Columns that no modelled
  function reads (generated row ids of entries, timestamps, contact data) are left out.
  JavaScript numbers that hold integers are \<open>int\<close>; counters that start at 0 and are only
  incremented are \<open>nat\<close>.
\<close>

record TimeSlot =
  slot_day :: string
  slot_period :: int
  slot_startTime :: string
  slot_endTime :: string

record ScheduleConstraint =
  sc_classId :: string
  sc_subjectId :: string
  sc_periodsNeeded :: int
  sc_preferredTeachers :: "string list"

record Teacher =
  t_id :: string
  t_subjects :: "string list"
  t_availability :: "string \<rightharpoonup> string list"
  t_schoolId :: string
  t_isActive :: bool

record Subject =
  sub_id :: string
  sub_name :: string
  sub_schoolId :: string

record Class =
  cls_id :: string
  cls_grade :: string
  cls_section :: string
  cls_schoolId :: string

record TimetableEntry =
  te_classId :: string
  te_teacherId :: string
  te_subjectId :: string
  te_day :: string
  te_period :: int
  te_startTime :: string
  te_endTime :: string
  te_room :: "string option"
  te_versionId :: "string option"
  te_isActive :: bool

record ClassSubjectAssignment =
  csa_classId :: string
  csa_subjectId :: string
  csa_weeklyFrequency :: int
  csa_assignedTeacherId :: "string option"

record TimetableVersion =
  tv_id :: string
  tv_classId :: string
  tv_version :: string
  tv_weekStart :: string
  tv_weekEnd :: string
  tv_isActive :: bool

record StructureSlot =
  ss_period :: int
  ss_startTime :: string
  ss_endTime :: string
  ss_isBreak :: "bool option"

text \<open>
  \<open>workingDays\<close> and \<open>timeSlots\<close> of a structure are optional here because the code
  guards both with \<open>||\<close>: \<open>None\<close> stands for a null or missing value.
\<close>

record TimetableStructure =
  str_schoolId :: string
  str_workingDays :: "string list option"
  str_timeSlots :: "StructureSlot list option"
  str_isActive :: bool

section \<open>JavaScript string helpers\<close>

text \<open>Decimal rendering of an integer, as a template literal does for an integral number.\<close>

fun show_nat :: "nat \<Rightarrow> string" where
  "show_nat n = (if n < 10 then [''0123456789'' ! n]
                 else show_nat (n div 10) @ [''0123456789'' ! (n mod 10)])"

declare show_nat.simps [simp del]

definition show_int :: "int \<Rightarrow> string" where
  "show_int i = (if i < 0 then CHR ''-'' # show_nat (nat (- i)) else show_nat (nat i))"

text \<open>\<open>s.split('-')\<close>: the pieces between dashes; a string without a dash is one piece.\<close>

fun split_dash_acc :: "string \<Rightarrow> string \<Rightarrow> string list" where
  "split_dash_acc acc [] = [rev acc]"
| "split_dash_acc acc (c # cs) =
     (if c = CHR ''-'' then rev acc # split_dash_acc [] cs else split_dash_acc (c # acc) cs)"

definition split_dash :: "string \<Rightarrow> string list" where
  "split_dash s = split_dash_acc [] s"

text \<open>Array destructuring reads a position that may be missing (\<open>undefined\<close>).\<close>

definition nth_opt :: "'a list \<Rightarrow> nat \<Rightarrow> 'a option" where
  "nth_opt xs i = (if i < length xs then Some (xs ! i) else None)"

text \<open>
  \<open>parseInt\<close> with no radix: leading white space is skipped, a sign is read, a \<open>0x\<close>
  prefix selects base 16, then the longest run of digits is read; \<open>None\<close> is \<open>NaN\<close>.
  White space is the ASCII part of the JavaScript set.
\<close>

definition isWhiteSpace :: "char \<Rightarrow> bool" where
  "isWhiteSpace c = (c \<in> set [CHR '' '', CHR 0x09, CHR 0x0A, CHR 0x0B, CHR 0x0C, CHR 0x0D])"

definition digitValue :: "char \<Rightarrow> nat option" where
  "digitValue c = map_of (zip ''0123456789abcdefghijklmnopqrstuvwxyz'' [0 ..< 36]
                          @ zip ''ABCDEFGHIJKLMNOPQRSTUVWXYZ'' [10 ..< 36]) c"

definition isDigitIn :: "nat \<Rightarrow> char \<Rightarrow> bool" where
  "isDigitIn radix c = (case digitValue c of None \<Rightarrow> False | Some v \<Rightarrow> v < radix)"

definition digitsValue :: "nat \<Rightarrow> string \<Rightarrow> nat" where
  "digitsValue radix ds = foldl (\<lambda>a c. a * radix + (case digitValue c of None \<Rightarrow> 0 | Some v \<Rightarrow> v)) 0 ds"

definition parseInt :: "string \<Rightarrow> int option" where
  "parseInt s =
     (let s1 = dropWhile isWhiteSpace s;
          neg = (s1 \<noteq> [] \<and> hd s1 = CHR ''-'');
          s2 = (if s1 \<noteq> [] \<and> (hd s1 = CHR ''-'' \<or> hd s1 = CHR ''+'') then tl s1 else s1);
          hex = (take 2 s2 = ''0x'' \<or> take 2 s2 = ''0X'');
          radix = (if hex then 16 else 10);
          s3 = (if hex then drop 2 s2 else s2);
          ds = takeWhile (isDigitIn radix) s3
      in if ds = [] then None
         else Some ((if neg then - 1 else 1) * int (digitsValue radix ds)))"

section \<open>Schedule solver (scheduler.ts, solveSchedule)\<close>

text \<open>
  The three run-local structures of \<open>solveSchedule\<close>: the entry list, the \<open>assignments\<close>
  map from the key \<open>classId-day-period\<close> to a set of teacher ids (an association list,
  because the code walks its keys), and the nested \<open>dailySubjectCount\<close> map.
\<close>

record SolverState =
  schedule :: "TimetableEntry list"
  assignments :: "(string \<times> string set) list"
  dailySubjectCount :: "string \<rightharpoonup> (string \<rightharpoonup> nat)"

definition emptySolverState :: SolverState where
  "emptySolverState = \<lparr>schedule = [], assignments = [], dailySubjectCount = Map.empty\<rparr>"

definition dayKey :: "string \<Rightarrow> string \<Rightarrow> string" where
  "dayKey classId d = classId @ ''-'' @ d"

definition slotKey :: "string \<Rightarrow> string \<Rightarrow> int \<Rightarrow> string" where
  "slotKey classId d p = classId @ ''-'' @ d @ ''-'' @ show_int p"

definition getDailySubjectCount :: "SolverState \<Rightarrow> string \<Rightarrow> string \<Rightarrow> string \<Rightarrow> nat" where
  "getDailySubjectCount st classId d subjectId =
     (case dailySubjectCount st (dayKey classId d) of
        None \<Rightarrow> 0
      | Some dayMap \<Rightarrow> (case dayMap subjectId of None \<Rightarrow> 0 | Some n \<Rightarrow> n))"

definition incrementDailySubjectCount ::
  "string \<Rightarrow> string \<Rightarrow> string \<Rightarrow> SolverState \<Rightarrow> SolverState" where
  "incrementDailySubjectCount classId d subjectId st =
     (let k = dayKey classId d;
          dayMap = (case dailySubjectCount st k of None \<Rightarrow> Map.empty | Some m \<Rightarrow> m);
          currentCount = (case dayMap subjectId of None \<Rightarrow> 0 | Some n \<Rightarrow> n)
      in st\<lparr>dailySubjectCount := (dailySubjectCount st)(k \<mapsto> dayMap(subjectId \<mapsto> currentCount + 1))\<rparr>)"

text \<open>The first filter: teachers whose subjects include the subject and who are active.\<close>

definition qualifiedTeachers :: "Teacher list \<Rightarrow> ScheduleConstraint \<Rightarrow> Teacher list" where
  "qualifiedTeachers teachers c =
     filter (\<lambda>t. sc_subjectId c \<in> set (t_subjects t) \<and> t_isActive t) teachers"

text \<open>The narrowing to assigned teachers, taken only when it leaves somebody.\<close>

definition eligibleTeachers :: "Teacher list \<Rightarrow> ScheduleConstraint \<Rightarrow> Teacher list" where
  "eligibleTeachers teachers c =
     (let eligible = qualifiedTeachers teachers c in
      if sc_preferredTeachers c \<noteq> [] then
        (let assignedTeachers = filter (\<lambda>t. t_id t \<in> set (sc_preferredTeachers c)) eligible
         in if assignedTeachers \<noteq> [] then assignedTeachers else eligible)
      else eligible)"

text \<open>
  The callback of \<open>eligibleTeachers.find\<close>. An absent or empty availability list returns
  \<open>true\<close> at once; only a teacher with a non-empty list for the day reaches the walk
  over the keys of \<open>assignments\<close>, which takes the second and third dash-separated
  pieces of each key as day and period.
\<close>

definition keyBlocks :: "TimeSlot \<Rightarrow> string \<Rightarrow> (string \<times> string set) \<Rightarrow> bool" where
  "keyBlocks ts teacherId kv =
     (let parts = split_dash (fst kv);
          assignedDay = nth_opt parts 1;
          assignedPeriod = nth_opt parts 2
      in assignedDay = Some (slot_day ts)
         \<and> (case assignedPeriod of None \<Rightarrow> None | Some p \<Rightarrow> parseInt p) = Some (slot_period ts)
         \<and> teacherId \<in> snd kv)"

definition availableTeacher :: "(string \<times> string set) list \<Rightarrow> TimeSlot \<Rightarrow> Teacher \<Rightarrow> bool" where
  "availableTeacher asg ts teacher =
     (case t_availability teacher (slot_day ts) of
        None \<Rightarrow> True
      | Some teacherAvailability \<Rightarrow>
          if teacherAvailability = [] then True
          else if (slot_startTime ts @ ''-'' @ slot_endTime ts) \<notin> set teacherAvailability then False
          else \<not> list_ex (keyBlocks ts (t_id teacher)) asg)"

definition makeEntry :: "ScheduleConstraint \<Rightarrow> TimeSlot \<Rightarrow> Teacher \<Rightarrow> TimetableEntry" where
  "makeEntry c ts teacher =
     \<lparr>te_classId = sc_classId c, te_teacherId = t_id teacher, te_subjectId = sc_subjectId c,
      te_day = slot_day ts, te_period = slot_period ts,
      te_startTime = slot_startTime ts, te_endTime = slot_endTime ts,
      te_room = None, te_versionId = None, te_isActive = True\<rparr>"

definition makeAssignment ::
  "ScheduleConstraint \<Rightarrow> TimeSlot \<Rightarrow> Teacher \<Rightarrow> SolverState \<Rightarrow> SolverState" where
  "makeAssignment c ts teacher st =
     (let st1 = st\<lparr>assignments :=
                     AList.update (slotKey (sc_classId c) (slot_day ts) (slot_period ts))
                       {t_id teacher} (assignments st)\<rparr>;
          st2 = incrementDailySubjectCount (sc_classId c) (slot_day ts) (sc_subjectId c) st1
      in st2\<lparr>schedule := schedule st2 @ [makeEntry c ts teacher]\<rparr>)"

text \<open>
  The inner loop over the prioritised slots; the third argument is \<open>periodsScheduled\<close>.
  The branches are, in the order of the code: \<open>break\<close>, two \<open>continue\<close>s, and the
  search for a teacher.
\<close>

fun placeSlots ::
  "ScheduleConstraint \<Rightarrow> Teacher list \<Rightarrow> int \<Rightarrow> TimeSlot list \<Rightarrow> SolverState \<Rightarrow> SolverState" where
  "placeSlots c eligible periodsScheduled [] st = st"
| "placeSlots c eligible periodsScheduled (ts # rest) st =
     (if periodsScheduled \<ge> sc_periodsNeeded c then st
      else if map_of (assignments st) (slotKey (sc_classId c) (slot_day ts) (slot_period ts)) \<noteq> None
        then placeSlots c eligible periodsScheduled rest st
      else if getDailySubjectCount st (sc_classId c) (slot_day ts) (sc_subjectId c) \<ge> 2
        then placeSlots c eligible periodsScheduled rest st
      else (case find (availableTeacher (assignments st) ts) eligible of
              None \<Rightarrow> placeSlots c eligible periodsScheduled rest st
            | Some teacher \<Rightarrow>
                placeSlots c eligible (periodsScheduled + 1) rest (makeAssignment c ts teacher st)))"

text \<open>
  The two calls of \<open>sort\<close> with a comparator that draws from \<open>Math.random\<close> are not
  functions of their input. They are modelled by two parameters of the solver: \<open>shuffle\<close>
  gives the order of the constraints, and \<open>prioritize i counts slots\<close> gives the slot
  order used for the \<open>i\<close>-th constraint of the loop, where \<open>counts\<close> is the key the
  comparator reads (the daily count of the slot's day). No theorem below restricts them,
  so each holds for every outcome of the two sorts.
\<close>

type_synonym slot_sorter = "nat \<Rightarrow> (TimeSlot \<Rightarrow> nat) \<Rightarrow> TimeSlot list \<Rightarrow> TimeSlot list"

text \<open>The body of the loop over the constraints, for the \<open>i\<close>-th constraint.\<close>

definition scheduleConstraint ::
  "slot_sorter \<Rightarrow> TimeSlot list \<Rightarrow> Teacher list \<Rightarrow> Subject list \<Rightarrow> nat \<Rightarrow>
   ScheduleConstraint \<Rightarrow> SolverState \<Rightarrow> SolverState" where
  "scheduleConstraint prioritize timeSlots teachers subjects i c st =
     (case find (\<lambda>s. sub_id s = sc_subjectId c) subjects of
        None \<Rightarrow> st
      | Some subject \<Rightarrow>
          (let eligible = eligibleTeachers teachers c in
           if eligible = [] then st
           else placeSlots c eligible 0
                  (prioritize i
                     (\<lambda>ts. getDailySubjectCount st (sc_classId c) (slot_day ts) (sc_subjectId c))
                     timeSlots)
                  st))"

fun solveLoop ::
  "slot_sorter \<Rightarrow> TimeSlot list \<Rightarrow> Teacher list \<Rightarrow> Subject list \<Rightarrow> nat \<Rightarrow>
   ScheduleConstraint list \<Rightarrow> SolverState \<Rightarrow> SolverState" where
  "solveLoop prioritize timeSlots teachers subjects i [] st = st"
| "solveLoop prioritize timeSlots teachers subjects i (c # cs) st =
     solveLoop prioritize timeSlots teachers subjects (Suc i) cs
       (scheduleConstraint prioritize timeSlots teachers subjects i c st)"

definition solveSchedule ::
  "(ScheduleConstraint list \<Rightarrow> ScheduleConstraint list) \<Rightarrow> slot_sorter \<Rightarrow> TimeSlot list \<Rightarrow>
   ScheduleConstraint list \<Rightarrow> Teacher list \<Rightarrow> Subject list \<Rightarrow> TimetableEntry list" where
  "solveSchedule shuffle prioritize timeSlots constraints teachers subjects =
     schedule (solveLoop prioritize timeSlots teachers subjects 0 (shuffle constraints)
                 emptySolverState)"

section \<open>Time grid (scheduler.ts, initializeTimeSlots and initializeFromStructure)\<close>

text \<open>
  The scheduler object has one field, \<open>timeSlots\<close>; the methods below take its value and
  return the new one. \<open>initializeTimeSlots\<close> pushes the forty default slots onto whatever
  the field holds. The constructor calls it on the empty field.
\<close>

definition defaultDays :: "string list" where
  "defaultDays = [''monday'', ''tuesday'', ''wednesday'', ''thursday'', ''friday'']"

definition periodTimes :: "(int \<times> string \<times> string) list" where
  "periodTimes =
     [(1, ''08:00'', ''08:45''), (2, ''08:45'', ''09:30''), (3, ''09:30'', ''10:15''),
      (4, ''10:15'', ''11:00''), (5, ''11:15'', ''12:00''), (6, ''12:00'', ''12:45''),
      (7, ''12:45'', ''13:30''), (8, ''13:30'', ''14:15'')]"

definition initializeTimeSlots :: "TimeSlot list \<Rightarrow> TimeSlot list" where
  "initializeTimeSlots timeSlots =
     timeSlots @ concat (map (\<lambda>d. map (\<lambda>(p, s, e).
        \<lparr>slot_day = d, slot_period = p, slot_startTime = s, slot_endTime = e\<rparr>) periodTimes)
        defaultDays)"

definition newScheduler :: "TimeSlot list" where
  "newScheduler = initializeTimeSlots []"

text \<open>A string is truthy when it is present and not empty.\<close>

definition truthy :: "string option \<Rightarrow> bool" where
  "truthy s = (case s of None \<Rightarrow> False | Some x \<Rightarrow> x \<noteq> [])"

definition defaultStructureSlots :: "StructureSlot list" where
  "defaultStructureSlots = map (\<lambda>(p, s, e).
     \<lparr>ss_period = p, ss_startTime = s, ss_endTime = e, ss_isBreak = None\<rparr>) periodTimes"

text \<open>
  \<open>fetch\<close> is the read \<open>storage.getTimetableStructureBySchool\<close>: \<open>None\<close> is a rejected
  promise (the \<open>catch\<close> branch), \<open>Some None\<close> is no row. The read happens only for a
  truthy school id. Nothing is assigned to the field when there is no structure.
\<close>

definition initializeFromStructure ::
  "(string \<Rightarrow> TimetableStructure option option) \<Rightarrow> string option \<Rightarrow> TimeSlot list \<Rightarrow> TimeSlot list" where
  "initializeFromStructure fetch schoolId timeSlots =
     (case (case schoolId of None \<Rightarrow> Some None
            | Some sid \<Rightarrow> if sid \<noteq> [] then fetch sid else Some None) of
        None \<Rightarrow> initializeTimeSlots timeSlots
      | Some None \<Rightarrow> timeSlots
      | Some (Some structure) \<Rightarrow>
          (let workingDays = (case str_workingDays structure of None \<Rightarrow> defaultDays | Some ds \<Rightarrow> ds);
               slots = (case str_timeSlots structure of None \<Rightarrow> defaultStructureSlots | Some ss \<Rightarrow> ss)
           in concat (map (\<lambda>d. map (\<lambda>slot.
                \<lparr>slot_day = d, slot_period = ss_period slot,
                 slot_startTime = ss_startTime slot, slot_endTime = ss_endTime slot\<rparr>)
                (filter (\<lambda>slot. ss_isBreak slot \<noteq> Some True) slots)) workingDays)))"

section \<open>Persistence (storage.ts)\<close>

text \<open>
  The tables the scheduler reads and writes, each as the list of its rows. The queries are
  total functions of the tables: a failing database connection is outside this model.
\<close>

record Storage =
  db_classes :: "Class list"
  db_subjects :: "Subject list"
  db_teachers :: "Teacher list"
  db_assignments :: "ClassSubjectAssignment list"
  db_structures :: "TimetableStructure list"
  db_versions :: "TimetableVersion list"
  db_entries :: "TimetableEntry list"

definition getClass :: "Storage \<Rightarrow> string \<Rightarrow> Class option" where
  "getClass st cid = find (\<lambda>c. cls_id c = cid) (db_classes st)"

definition getClasses :: "Storage \<Rightarrow> string option \<Rightarrow> Class list" where
  "getClasses st schoolId =
     (if truthy schoolId then filter (\<lambda>c. Some (cls_schoolId c) = schoolId) (db_classes st)
      else db_classes st)"

definition getSubjects :: "Storage \<Rightarrow> string option \<Rightarrow> Subject list" where
  "getSubjects st schoolId =
     (if truthy schoolId then filter (\<lambda>s. Some (sub_schoolId s) = schoolId) (db_subjects st)
      else db_subjects st)"

definition getTeachers :: "Storage \<Rightarrow> string option \<Rightarrow> Teacher list" where
  "getTeachers st schoolId =
     (if truthy schoolId
      then filter (\<lambda>t. t_isActive t \<and> Some (t_schoolId t) = schoolId) (db_teachers st)
      else filter t_isActive (db_teachers st))"

definition getTimetableStructureBySchool :: "Storage \<Rightarrow> string \<Rightarrow> TimetableStructure option" where
  "getTimetableStructureBySchool st schoolId =
     find (\<lambda>s. str_schoolId s = schoolId \<and> str_isActive s) (db_structures st)"

definition getTimetableEntries :: "Storage \<Rightarrow> TimetableEntry list" where
  "getTimetableEntries st = filter te_isActive (db_entries st)"

text \<open>
  A row of \<open>getClassSubjectAssignments\<close>: the assignment joined with its subject. The
  inner join with \<open>subjects\<close> gives one row per matching subject, the left join with
  \<open>teachers\<close> one row per matching teacher and one row when there is none.
\<close>

record AssignmentRow =
  ar_subjectId :: string
  ar_weeklyFrequency :: int
  ar_assignedTeacherId :: "string option"
  ar_subjectName :: string

definition assignmentRows :: "Storage \<Rightarrow> ClassSubjectAssignment \<Rightarrow> AssignmentRow list" where
  "assignmentRows st a =
     concat (map (\<lambda>s.
        replicate (max 1 (length (filter (\<lambda>t. Some (t_id t) = csa_assignedTeacherId a) (db_teachers st))))
          \<lparr>ar_subjectId = csa_subjectId a, ar_weeklyFrequency = csa_weeklyFrequency a,
           ar_assignedTeacherId = csa_assignedTeacherId a, ar_subjectName = sub_name s\<rparr>)
        (filter (\<lambda>s. sub_id s = csa_subjectId a) (db_subjects st)))"

definition getClassSubjectAssignments :: "Storage \<Rightarrow> string \<Rightarrow> AssignmentRow list" where
  "getClassSubjectAssignments st classId =
     concat (map (assignmentRows st)
       (if classId \<noteq> [] then filter (\<lambda>a. csa_classId a = classId) (db_assignments st)
        else db_assignments st))"

text \<open>
  The query orders the versions by creation time; the table is kept in insertion order,
  and the caller reads only the length of the result.
\<close>

definition getTimetableVersionsForClass ::
  "Storage \<Rightarrow> string \<Rightarrow> string \<Rightarrow> string \<Rightarrow> TimetableVersion list" where
  "getTimetableVersionsForClass st classId weekStart weekEnd =
     filter (\<lambda>v. tv_classId v = classId \<and> tv_weekStart v = weekStart \<and> tv_weekEnd v = weekEnd)
       (db_versions st)"

definition createTimetableVersion :: "TimetableVersion \<Rightarrow> Storage \<Rightarrow> Storage" where
  "createTimetableVersion v st = st\<lparr>db_versions := db_versions st @ [v]\<rparr>"

text \<open>The two updates of \<open>setActiveVersion\<close>, each a pass over the version table.\<close>

definition deactivateWeek :: "string \<Rightarrow> string \<Rightarrow> string \<Rightarrow> Storage \<Rightarrow> Storage" where
  "deactivateWeek classId weekStart weekEnd st =
     st\<lparr>db_versions := map (\<lambda>v.
        if tv_classId v = classId \<and> tv_weekStart v = weekStart \<and> tv_weekEnd v = weekEnd
        then v\<lparr>tv_isActive := False\<rparr> else v) (db_versions st)\<rparr>"

definition activateVersion :: "string \<Rightarrow> Storage \<Rightarrow> Storage" where
  "activateVersion versionId st =
     st\<lparr>db_versions := map (\<lambda>v. if tv_id v = versionId then v\<lparr>tv_isActive := True\<rparr> else v)
        (db_versions st)\<rparr>"

definition activeCount :: "string \<Rightarrow> string \<Rightarrow> string \<Rightarrow> Storage \<Rightarrow> nat" where
  "activeCount classId weekStart weekEnd st =
     length (filter (\<lambda>v. tv_classId v = classId \<and> tv_weekStart v = weekStart
                          \<and> tv_weekEnd v = weekEnd \<and> tv_isActive v) (db_versions st))"

definition setActiveVersion :: "string \<Rightarrow> string \<Rightarrow> Storage \<Rightarrow> Storage" where
  "setActiveVersion versionId classId st =
     (case filter (\<lambda>v. tv_id v = versionId) (db_versions st) of
        [] \<Rightarrow> st
      | version # _ \<Rightarrow>
          (let weekStart = tv_weekStart version;
               weekEnd = tv_weekEnd version;
               st1 = deactivateWeek classId weekStart weekEnd st;
               st2 = activateVersion versionId st1
           in if activeCount classId weekStart weekEnd st2 > 1
              then activateVersion versionId (deactivateWeek classId weekStart weekEnd st2)
              else st2))"

definition bulkCreateTimetableEntries :: "TimetableEntry list \<Rightarrow> Storage \<Rightarrow> Storage" where
  "bulkCreateTimetableEntries entries st =
     (if entries = [] then st
      else st\<lparr>db_entries :=
             map (\<lambda>e. if te_classId e \<in> set (map te_classId entries)
                       then e\<lparr>te_isActive := False\<rparr> else e) (db_entries st)
             @ entries\<rparr>)"

section \<open>Generation (scheduler.ts, generateTimetable and buildConstraints)\<close>

record GenerationResult =
  success :: bool
  message :: string
  entriesCreated :: "nat option"
  version :: "string option"

definition failure :: "string \<Rightarrow> GenerationResult" where
  "failure msg = \<lparr>success = False, message = msg, entriesCreated = None, version = None\<rparr>"

record VersionCreated =
  vc_classId :: string
  vc_version :: string
  vc_versionId :: string

definition buildConstraints :: "Storage \<Rightarrow> Class list \<Rightarrow> ScheduleConstraint list" where
  "buildConstraints st classes =
     concat (map (\<lambda>classData. map (\<lambda>assignment.
        \<lparr>sc_classId = cls_id classData, sc_subjectId = ar_subjectId assignment,
         sc_periodsNeeded = ar_weeklyFrequency assignment,
         sc_preferredTeachers = (if truthy (ar_assignedTeacherId assignment)
                                 then (case ar_assignedTeacherId assignment of
                                         None \<Rightarrow> [] | Some tid \<Rightarrow> [tid])
                                 else [])\<rparr>)
        (getClassSubjectAssignments st (cls_id classData))) classes)"

text \<open>
  The first block of \<open>generateTimetable\<close>: which classes the run is for. \<open>Inl\<close> carries
  the message of an early return.
\<close>

definition resolveClasses :: "Storage \<Rightarrow> string option \<Rightarrow> string option \<Rightarrow> string + Class list" where
  "resolveClasses st classId userSchoolId =
     (case classId of
        Some cid \<Rightarrow>
          (if cid \<noteq> [] then
             (case getClass st cid of
                None \<Rightarrow> Inl ''Class not found.''
              | Some singleClass \<Rightarrow> Inr [singleClass])
           else if truthy userSchoolId
             then Inr (filter (\<lambda>cls. Some (cls_schoolId cls) = userSchoolId) (getClasses st None))
             else Inl ''Please generate timetable for specific classes.'')
      | None \<Rightarrow>
          (if truthy userSchoolId
             then Inr (filter (\<lambda>cls. Some (cls_schoolId cls) = userSchoolId) (getClasses st None))
             else Inl ''Please generate timetable for specific classes.''))"

text \<open>
  The loop that creates one version per class. \<open>genId\<close> stands for the id the database
  generates for the inserted row; it may depend on the tables at that moment.
\<close>

fun createVersions ::
  "(Storage \<Rightarrow> string) \<Rightarrow> string \<Rightarrow> string \<Rightarrow> Class list \<Rightarrow> VersionCreated list \<Rightarrow> Storage \<Rightarrow>
   VersionCreated list \<times> Storage" where
  "createVersions genId weekStart weekEnd [] versionsCreated st = (versionsCreated, st)"
| "createVersions genId weekStart weekEnd (classData # rest) versionsCreated st =
     (let existingVersions = getTimetableVersionsForClass st (cls_id classData) weekStart weekEnd;
          newVersionNumber = length existingVersions + 1;
          versionString = ''v0.'' @ show_nat newVersionNumber;
          newVersion = \<lparr>tv_id = genId st, tv_classId = cls_id classData, tv_version = versionString,
                        tv_weekStart = weekStart, tv_weekEnd = weekEnd, tv_isActive = True\<rparr>;
          st1 = createTimetableVersion newVersion st;
          st2 = setActiveVersion (tv_id newVersion) (cls_id classData) st1
      in createVersions genId weekStart weekEnd rest
           (versionsCreated @ [\<lparr>vc_classId = cls_id classData, vc_version = versionString,
                                 vc_versionId = tv_id newVersion\<rparr>]) st2)"

definition stampVersion :: "VersionCreated list \<Rightarrow> TimetableEntry \<Rightarrow> TimetableEntry" where
  "stampVersion versionsCreated entry =
     (case find (\<lambda>v. vc_classId v = te_classId entry) versionsCreated of
        Some classVersion \<Rightarrow> entry\<lparr>te_versionId := Some (vc_versionId classVersion)\<rparr>
      | None \<Rightarrow> entry)"

text \<open>
  \<open>generateTimetable\<close> takes the two sort outcomes, the id source, the week range read off
  the clock, its two arguments, the scheduler's \<open>timeSlots\<close> field and the tables; it
  returns the result object, the new field and the new tables.
\<close>

definition generateTimetable ::
  "(ScheduleConstraint list \<Rightarrow> ScheduleConstraint list) \<Rightarrow> slot_sorter \<Rightarrow> (Storage \<Rightarrow> string) \<Rightarrow>
   string \<Rightarrow> string \<Rightarrow> string option \<Rightarrow> string option \<Rightarrow> TimeSlot list \<Rightarrow> Storage \<Rightarrow>
   GenerationResult \<times> TimeSlot list \<times> Storage" where
  "generateTimetable shuffle prioritize genId weekStart weekEnd classId userSchoolId timeSlots st =
     (case resolveClasses st classId userSchoolId of
        Inl msg \<Rightarrow> (failure msg, timeSlots, st)
      | Inr classes \<Rightarrow>
          (let schoolId = (case classes of [] \<Rightarrow> None | c # _ \<Rightarrow> Some (cls_schoolId c)) in
           if \<not> truthy schoolId
           then (failure ''Classes must be associated with a school.'', timeSlots, st)
           else
             (let subjects = getSubjects st None;
                  teachers = getTeachers st schoolId
              in if classes = [] \<or> subjects = [] \<or> teachers = []
                 then (failure ''Please ensure you have added classes, subjects, and teachers before generating timetable.'',
                       timeSlots, st)
                 else
                   (let timeSlots1 = initializeFromStructure
                          (\<lambda>sid. Some (getTimetableStructureBySchool st sid)) schoolId timeSlots;
                        (versionsCreated, st1) = createVersions genId weekStart weekEnd classes [] st;
                        constraints = buildConstraints st1 classes;
                        sched = solveSchedule shuffle prioritize timeSlots1 constraints teachers subjects
                    in if sched = []
                       then (failure ''Unable to generate a valid timetable with current constraints. Please check teacher availability and subject requirements.'',
                             timeSlots1, st1)
                       else
                         (let scheduleWithVersions = map (stampVersion versionsCreated) sched;
                              st2 = bulkCreateTimetableEntries scheduleWithVersions st1
                          in (\<lparr>success = True,
                               message = ''Timetable generated successfully with ''
                                         @ show_nat (length sched) @ '' entries.'',
                               entriesCreated = Some (length sched),
                               version = Some (case versionsCreated of
                                                 [] \<Rightarrow> ''v0.1'' | v # _ \<Rightarrow> vc_version v)\<rparr>,
                              timeSlots1, st2))))))"

section \<open>Validation (scheduler.ts, validateTimetable)\<close>

record ValidationResult =
  isValid :: bool
  conflicts :: "string list"

definition teacherConflictMessage :: "TimetableEntry \<Rightarrow> TimetableEntry \<Rightarrow> string" where
  "teacherConflictMessage entry conflictEntry =
     ''Teacher conflict: Teacher '' @ te_teacherId entry @ '' is scheduled for both Class ''
     @ te_classId entry @ '' and Class '' @ te_classId conflictEntry @ '' on '' @ te_day entry
     @ '' period '' @ show_int (te_period entry)"

text \<open>
  The first loop. \<open>teacherSchedule\<close> maps a teacher id to the set of \<open>day-period\<close> keys
  seen so far; \<open>allEntries\<close> is the whole list, which \<open>find\<close> searches from the start.
\<close>

fun teacherLoop ::
  "TimetableEntry list \<Rightarrow> TimetableEntry list \<Rightarrow> (string \<rightharpoonup> string set) \<Rightarrow> string list \<Rightarrow> string list" where
  "teacherLoop allEntries [] teacherSchedule cs = cs"
| "teacherLoop allEntries (entry # rest) teacherSchedule cs =
     (let key = te_day entry @ ''-'' @ show_int (te_period entry);
          teacherSlots = (case teacherSchedule (te_teacherId entry) of None \<Rightarrow> {} | Some s \<Rightarrow> s)
      in if key \<in> teacherSlots then
           (case find (\<lambda>e. te_teacherId e = te_teacherId entry \<and> te_day e = te_day entry
                            \<and> te_period e = te_period entry \<and> te_classId e \<noteq> te_classId entry)
                   allEntries of
              Some conflictEntry \<Rightarrow>
                teacherLoop allEntries rest (teacherSchedule(te_teacherId entry \<mapsto> teacherSlots))
                  (cs @ [teacherConflictMessage entry conflictEntry])
            | None \<Rightarrow>
                teacherLoop allEntries rest (teacherSchedule(te_teacherId entry \<mapsto> teacherSlots)) cs)
         else teacherLoop allEntries rest
                (teacherSchedule(te_teacherId entry \<mapsto> insert key teacherSlots)) cs)"

definition roomConflictMessage :: "string \<Rightarrow> TimetableEntry \<Rightarrow> string" where
  "roomConflictMessage room entry =
     ''Room conflict: Room '' @ room @ '' is double-booked on '' @ te_day entry
     @ '' period '' @ show_int (te_period entry)"

fun roomLoop :: "TimetableEntry list \<Rightarrow> (string \<rightharpoonup> string set) \<Rightarrow> string list \<Rightarrow> string list" where
  "roomLoop [] roomSchedule cs = cs"
| "roomLoop (entry # rest) roomSchedule cs =
     (case te_room entry of
        None \<Rightarrow> roomLoop rest roomSchedule cs
      | Some room \<Rightarrow>
          if room = [] then roomLoop rest roomSchedule cs
          else
            (let key = te_day entry @ ''-'' @ show_int (te_period entry);
                 roomSlots = (case roomSchedule room of None \<Rightarrow> {} | Some s \<Rightarrow> s)
             in if key \<in> roomSlots
                then roomLoop rest (roomSchedule(room \<mapsto> roomSlots))
                       (cs @ [roomConflictMessage room entry])
                else roomLoop rest (roomSchedule(room \<mapsto> insert key roomSlots)) cs))"

text \<open>The third loop fills \<open>classSubjectCount\<close>, a map of maps of counters.\<close>

fun countLoop ::
  "TimetableEntry list \<Rightarrow> (string \<rightharpoonup> (string \<rightharpoonup> nat)) \<Rightarrow> (string \<rightharpoonup> (string \<rightharpoonup> nat))" where
  "countLoop [] classSubjectCount = classSubjectCount"
| "countLoop (entry # rest) classSubjectCount =
     (let subjectCount = (case classSubjectCount (te_classId entry) of
                            None \<Rightarrow> Map.empty | Some m \<Rightarrow> m);
          currentCount = (case subjectCount (te_subjectId entry) of None \<Rightarrow> 0 | Some n \<Rightarrow> n)
      in countLoop rest
           (classSubjectCount(te_classId entry \<mapsto>
              subjectCount(te_subjectId entry \<mapsto> currentCount + 1))))"

definition subjectNameOf :: "AssignmentRow \<Rightarrow> string" where
  "subjectNameOf assignment =
     (if ar_subjectName assignment \<noteq> [] then ar_subjectName assignment else ''Unknown Subject'')"

definition insufficientMessage :: "Class \<Rightarrow> AssignmentRow \<Rightarrow> nat \<Rightarrow> string" where
  "insufficientMessage classData assignment actualCount =
     ''Insufficient periods: Class '' @ cls_grade classData @ ''-'' @ cls_section classData
     @ '' needs '' @ show_int (ar_weeklyFrequency assignment) @ '' periods of ''
     @ subjectNameOf assignment @ '' but only has '' @ show_nat actualCount"

definition excessMessage :: "Class \<Rightarrow> AssignmentRow \<Rightarrow> nat \<Rightarrow> string" where
  "excessMessage classData assignment actualCount =
     ''Excess periods: Class '' @ cls_grade classData @ ''-'' @ cls_section classData
     @ '' has '' @ show_nat actualCount @ '' periods of '' @ subjectNameOf assignment
     @ '' but only needs '' @ show_int (ar_weeklyFrequency assignment)"

definition actualCountOf :: "(string \<rightharpoonup> (string \<rightharpoonup> nat)) \<Rightarrow> string \<Rightarrow> string \<Rightarrow> nat" where
  "actualCountOf classSubjectCount classId subjectId =
     (case (case classSubjectCount classId of None \<Rightarrow> Map.empty | Some m \<Rightarrow> m) subjectId of
        None \<Rightarrow> 0 | Some n \<Rightarrow> n)"

fun assignmentLoop ::
  "(string \<rightharpoonup> (string \<rightharpoonup> nat)) \<Rightarrow> Class \<Rightarrow> AssignmentRow list \<Rightarrow> string list \<Rightarrow> string list" where
  "assignmentLoop classSubjectCount classData [] cs = cs"
| "assignmentLoop classSubjectCount classData (assignment # rest) cs =
     (let actualCount = actualCountOf classSubjectCount (cls_id classData) (ar_subjectId assignment);
          cs1 = (if int actualCount < ar_weeklyFrequency assignment
                 then cs @ [insufficientMessage classData assignment actualCount] else cs);
          cs2 = (if int actualCount > ar_weeklyFrequency assignment
                 then cs1 @ [excessMessage classData assignment actualCount] else cs1)
      in assignmentLoop classSubjectCount classData rest cs2)"

fun frequencyLoop ::
  "Storage \<Rightarrow> (string \<rightharpoonup> (string \<rightharpoonup> nat)) \<Rightarrow> Class list \<Rightarrow> string list \<Rightarrow> string list" where
  "frequencyLoop st classSubjectCount [] cs = cs"
| "frequencyLoop st classSubjectCount (classData # rest) cs =
     frequencyLoop st classSubjectCount rest
       (assignmentLoop classSubjectCount classData
          (getClassSubjectAssignments st (cls_id classData)) cs)"

definition validateTimetable :: "Storage \<Rightarrow> ValidationResult" where
  "validateTimetable st =
     (let timetableEntries = getTimetableEntries st;
          cs1 = teacherLoop timetableEntries timetableEntries Map.empty [];
          cs2 = roomLoop timetableEntries Map.empty cs1;
          classSubjectCount = countLoop timetableEntries Map.empty;
          cs3 = frequencyLoop st classSubjectCount (getClasses st None) cs2
      in \<lparr>isValid = (cs3 = []), conflicts = cs3\<rparr>)"

section \<open>Predicates used in the statements\<close>

text \<open>How many entries of a list fall on one class, day and subject.\<close>

definition countOn :: "string \<Rightarrow> string \<Rightarrow> string \<Rightarrow> TimetableEntry list \<Rightarrow> nat" where
  "countOn classId d subjectId es =
     length (filter (\<lambda>e. te_classId e = classId \<and> te_day e = d \<and> te_subjectId e = subjectId) es)"

text \<open>
  The invariant behind the daily cap: the counter the solver keeps for a class, day and
  subject is at least the number of entries placed there, and at most 2.
\<close>

definition capInv :: "SolverState \<Rightarrow> bool" where
  "capInv st = (\<forall>c d s. countOn c d s (schedule st) \<le> getDailySubjectCount st c d s
                        \<and> getDailySubjectCount st c d s \<le> 2)"

text \<open>
  An entry names a suitable teacher of the roster: active, qualified for the entry's
  subject, and with an availability list for the entry's day that is absent, empty, or
  holds the entry's \<open>start-end\<close> string.
\<close>

definition suitableTeacher :: "Teacher list \<Rightarrow> TimetableEntry \<Rightarrow> bool" where
  "suitableTeacher teachers e =
     (\<exists>t \<in> set teachers.
        t_id t = te_teacherId e \<and> t_isActive t \<and> te_subjectId e \<in> set (t_subjects t)
        \<and> (case t_availability t (te_day e) of
              None \<Rightarrow> True
            | Some av \<Rightarrow> av = [] \<or> (te_startTime e @ ''-'' @ te_endTime e) \<in> set av))"

text \<open>The class, day and period of an entry, and the invariant that ties them to the map.\<close>

definition classSlot :: "TimetableEntry \<Rightarrow> string \<times> string \<times> int" where
  "classSlot e = (te_classId e, te_day e, te_period e)"

definition teacherSlot :: "TimetableEntry \<Rightarrow> string \<times> string \<times> int" where
  "teacherSlot e = (te_teacherId e, te_day e, te_period e)"

definition classInv :: "SolverState \<Rightarrow> bool" where
  "classInv st =
     (distinct (map classSlot (schedule st))
      \<and> list_all (\<lambda>e. map_of (assignments st) (slotKey (te_classId e) (te_day e) (te_period e)) \<noteq> None)
          (schedule st))"


text \<open>
  Versions are grouped by class and week. \<open>singleActive\<close> says that exactly one version of
  a group is active; \<open>hasVersion\<close> that the group is not empty. A call of
  \<open>setActiveVersion\<close> is a pair of its two arguments; it is valid when the id is that of a
  version of the class, and it targets the group of that version.
\<close>

type_synonym version_group = "string \<times> string \<times> string"

definition groupOf :: "TimetableVersion \<Rightarrow> version_group" where
  "groupOf v = (tv_classId v, tv_weekStart v, tv_weekEnd v)"

definition singleActive :: "version_group \<Rightarrow> Storage \<Rightarrow> bool" where
  "singleActive g st =
     (length (filter (\<lambda>v. groupOf v = g \<and> tv_isActive v) (db_versions st)) = 1)"

definition hasVersion :: "version_group \<Rightarrow> Storage \<Rightarrow> bool" where
  "hasVersion g st = (g \<in> set (map groupOf (db_versions st)))"

definition validCall :: "Storage \<Rightarrow> string \<times> string \<Rightarrow> bool" where
  "validCall st call =
     (\<exists>v \<in> set (db_versions st). tv_id v = fst call \<and> tv_classId v = snd call)"

definition targets :: "Storage \<Rightarrow> string \<times> string \<Rightarrow> version_group \<Rightarrow> bool" where
  "targets st call g =
     (\<exists>v \<in> set (db_versions st). tv_id v = fst call \<and> tv_classId v = snd call \<and> groupOf v = g)"

fun runCalls :: "(string \<times> string) list \<Rightarrow> Storage \<Rightarrow> Storage" where
  "runCalls [] st = st"
| "runCalls (call # rest) st = runCalls rest (setActiveVersion (fst call) (snd call) st)"

text \<open>What one valid call does to a row of the version table.\<close>

definition afterCall :: "string \<Rightarrow> version_group \<Rightarrow> TimetableVersion \<Rightarrow> TimetableVersion" where
  "afterCall versionId g v =
     (if tv_id v = versionId then v\<lparr>tv_isActive := True\<rparr>
      else if groupOf v = g then v\<lparr>tv_isActive := False\<rparr> else v)"


text \<open>The number of active entries of a class and subject, as the validator counts them.\<close>

definition matchingEntries :: "Storage \<Rightarrow> string \<Rightarrow> string \<Rightarrow> nat" where
  "matchingEntries st classId subjectId =
     length (filter (\<lambda>e. te_classId e = classId \<and> te_subjectId e = subjectId)
               (getTimetableEntries st))"

section \<open>Concrete inputs\<close>

text \<open>
  Small inputs on which the definitions are evaluated. \<open>keepOrder\<close> and \<open>keepSlots\<close> are the
  sort outcomes that leave a list as it is. \<open>defaultAvailability\<close> is the column default of
  \<open>teachers.availability\<close>: every day present with an empty list.
\<close>

definition keepOrder :: "ScheduleConstraint list \<Rightarrow> ScheduleConstraint list" where
  "keepOrder cs = cs"

definition keepSlots :: slot_sorter where
  "keepSlots i counts slots = slots"

definition defaultAvailability :: "string \<rightharpoonup> string list" where
  "defaultAvailability =
     [''monday'' \<mapsto> [], ''tuesday'' \<mapsto> [], ''wednesday'' \<mapsto> [], ''thursday'' \<mapsto> [],
      ''friday'' \<mapsto> [], ''saturday'' \<mapsto> []]"

definition monday :: "int \<Rightarrow> string \<Rightarrow> string \<Rightarrow> TimeSlot" where
  "monday p s e = \<lparr>slot_day = ''monday'', slot_period = p, slot_startTime = s, slot_endTime = e\<rparr>"

definition maths :: Subject where
  "maths = \<lparr>sub_id = ''s1'', sub_name = ''Maths'', sub_schoolId = ''A''\<rparr>"

definition teacherOf :: "string \<Rightarrow> (string \<rightharpoonup> string list) \<Rightarrow> Teacher" where
  "teacherOf tid av =
     \<lparr>t_id = tid, t_subjects = [''s1''], t_availability = av, t_schoolId = ''A'', t_isActive = True\<rparr>"

definition needs :: "string \<Rightarrow> string \<Rightarrow> int \<Rightarrow> string list \<Rightarrow> ScheduleConstraint" where
  "needs cid sid n preferred =
     \<lparr>sc_classId = cid, sc_subjectId = sid, sc_periodsNeeded = n, sc_preferredTeachers = preferred\<rparr>"

text \<open>The solver state after two placements for one class and subject on one day.\<close>

definition twoPlaced :: SolverState where
  "twoPlaced = placeSlots (needs ''c1'' ''s1'' 3 []) [teacherOf ''t1'' defaultAvailability] 0
                [monday 1 ''08:00'' ''08:45'', monday 2 ''08:45'' ''09:30''] emptySolverState"

text \<open>A version table with one inactive version for each of two classes in one week.\<close>

definition versionOf :: "string \<Rightarrow> string \<Rightarrow> bool \<Rightarrow> TimetableVersion" where
  "versionOf vid cid active =
     \<lparr>tv_id = vid, tv_classId = cid, tv_version = ''v0.1'', tv_weekStart = ''2025-01-06'',
      tv_weekEnd = ''2025-01-11'', tv_isActive = active\<rparr>"

definition tablesWith :: "TimetableVersion list \<Rightarrow> Storage" where
  "tablesWith vs =
     \<lparr>db_classes = [], db_subjects = [], db_teachers = [], db_assignments = [],
      db_structures = [], db_versions = vs, db_entries = []\<rparr>"

text \<open>
  Two schools. School \<open>A\<close> has a structure of its own: saturday only, one teaching period
  and one break. School \<open>B\<close> has none. Each school has one class, one subject, one teacher
  with the default availability and one assignment of one period a week.
\<close>

definition schoolAStructure :: TimetableStructure where
  "schoolAStructure =
     \<lparr>str_schoolId = ''A'', str_workingDays = Some [''saturday''],
      str_timeSlots = Some
        [\<lparr>ss_period = 1, ss_startTime = ''09:00'', ss_endTime = ''09:45'', ss_isBreak = None\<rparr>,
         \<lparr>ss_period = 2, ss_startTime = ''09:45'', ss_endTime = ''10:00'', ss_isBreak = Some True\<rparr>],
      str_isActive = True\<rparr>"

definition classIn :: "string \<Rightarrow> string \<Rightarrow> Class" where
  "classIn cid school = \<lparr>cls_id = cid, cls_grade = ''5'', cls_section = ''A'', cls_schoolId = school\<rparr>"

definition subjectIn :: "string \<Rightarrow> string \<Rightarrow> Subject" where
  "subjectIn sid school = \<lparr>sub_id = sid, sub_name = ''Maths'', sub_schoolId = school\<rparr>"

definition teacherIn :: "string \<Rightarrow> string list \<Rightarrow> string \<Rightarrow> Teacher" where
  "teacherIn tid subjectIds school =
     \<lparr>t_id = tid, t_subjects = subjectIds, t_availability = defaultAvailability,
      t_schoolId = school, t_isActive = True\<rparr>"

definition assignmentOf :: "string \<Rightarrow> string \<Rightarrow> int \<Rightarrow> ClassSubjectAssignment" where
  "assignmentOf cid sid n =
     \<lparr>csa_classId = cid, csa_subjectId = sid, csa_weeklyFrequency = n, csa_assignedTeacherId = None\<rparr>"

definition twoSchools :: Storage where
  "twoSchools =
     \<lparr>db_classes = [classIn ''cA'' ''A'', classIn ''cB'' ''B''],
      db_subjects = [subjectIn ''s1'' ''A'', subjectIn ''s2'' ''B''],
      db_teachers = [teacherIn ''tA'' [''s1''] ''A'', teacherIn ''tB'' [''s2''] ''B''],
      db_assignments = [assignmentOf ''cA'' ''s1'' 1, assignmentOf ''cB'' ''s2'' 1],
      db_structures = [schoolAStructure], db_versions = [], db_entries = []\<rparr>"

text \<open>School \<open>A\<close> with a class and a teacher but no subject; the only subject is of school \<open>B\<close>.\<close>

definition noSubjectInA :: Storage where
  "noSubjectInA =
     \<lparr>db_classes = [classIn ''cA'' ''A''],
      db_subjects = [subjectIn ''s2'' ''B''],
      db_teachers = [teacherIn ''tA'' [] ''A''],
      db_assignments = [], db_structures = [], db_versions = [], db_entries = []\<rparr>"


text \<open>Ids \<open>v0\<close>, \<open>v1\<close>, ... in the order of insertion, and a fixed week.\<close>

definition countingId :: "Storage \<Rightarrow> string" where
  "countingId st = ''v'' @ show_nat (length (db_versions st))"

definition runFor :: "string \<Rightarrow> string \<Rightarrow> TimeSlot list \<Rightarrow> Storage \<Rightarrow>
   GenerationResult \<times> TimeSlot list \<times> Storage" where
  "runFor cid school timeSlots st =
     generateTimetable keepOrder keepSlots countingId ''2025-01-06'' ''2025-01-11''
       (Some cid) (Some school) timeSlots st"

text \<open>
  Entries for the validator. \<open>underProvided\<close> has an assignment of five periods a week and
  three active entries of the class and subject, beside an inactive one.
\<close>

definition entryOf :: "string \<Rightarrow> string \<Rightarrow> string \<Rightarrow> int \<Rightarrow> bool \<Rightarrow> TimetableEntry" where
  "entryOf cid tid d p active =
     \<lparr>te_classId = cid, te_teacherId = tid, te_subjectId = ''s1'', te_day = d, te_period = p,
      te_startTime = ''08:00'', te_endTime = ''08:45'', te_room = None, te_versionId = None,
      te_isActive = active\<rparr>"

definition underProvided :: Storage where
  "underProvided =
     \<lparr>db_classes = [classIn ''cA'' ''A''],
      db_subjects = [subjectIn ''s1'' ''A''],
      db_teachers = [teacherIn ''tA'' [''s1''] ''A''],
      db_assignments = [assignmentOf ''cA'' ''s1'' 5],
      db_structures = [], db_versions = [],
      db_entries = [entryOf ''cA'' ''tA'' ''monday'' 1 True, entryOf ''cA'' ''tA'' ''tuesday'' 1 True,
                    entryOf ''cA'' ''tA'' ''wednesday'' 1 True, entryOf ''cA'' ''tA'' ''friday'' 1 False]\<rparr>"

definition entriesOnly :: "TimetableEntry list \<Rightarrow> Storage" where
  "entriesOnly es =
     \<lparr>db_classes = [], db_subjects = [], db_teachers = [], db_assignments = [],
      db_structures = [], db_versions = [], db_entries = es\<rparr>"

text \<open>The same entry twice in one class, under an assignment of five periods a week.\<close>

definition sameClassTwice :: Storage where
  "sameClassTwice =
     \<lparr>db_classes = [classIn ''cA'' ''A''],
      db_subjects = [subjectIn ''s1'' ''A''],
      db_teachers = [teacherIn ''tA'' [''s1''] ''A''],
      db_assignments = [assignmentOf ''cA'' ''s1'' 5],
      db_structures = [], db_versions = [],
      db_entries = [entryOf ''cA'' ''tA'' ''monday'' 1 True, entryOf ''cA'' ''tA'' ''monday'' 1 True]\<rparr>"

section \<open>Properties of the solver\<close>

subsection \<open>What one placement changes\<close>

lemma schedule_makeAssignment:
  "schedule (makeAssignment c ts t st) = schedule st @ [makeEntry c ts t]"
  by (simp add: makeAssignment_def incrementDailySubjectCount_def Let_def)

lemma assignments_makeAssignment:
  "map_of (assignments (makeAssignment c ts t st)) k =
     (if k = slotKey (sc_classId c) (slot_day ts) (slot_period ts) then Some {t_id t}
      else map_of (assignments st) k)"
  by (simp add: makeAssignment_def incrementDailySubjectCount_def Let_def update_conv')

lemma getDaily_makeAssignment:
  "getDailySubjectCount (makeAssignment c ts t st) c' d' s' =
     (if dayKey c' d' = dayKey (sc_classId c) (slot_day ts) \<and> s' = sc_subjectId c
      then getDailySubjectCount st c' d' s' + 1
      else getDailySubjectCount st c' d' s')"
  by (auto simp add: makeAssignment_def incrementDailySubjectCount_def Let_def
        getDailySubjectCount_def split: option.splits)

subsection \<open>Invariants of the iteration\<close>

text \<open>
  A property of the solver state that every placement keeps, under the guards that lead
  to a placement, holds after the inner loop, after one constraint and after the run.
\<close>

lemma placeSlots_preserves:
  assumes "P st"
    and step: "\<And>ts t st'. P st' \<Longrightarrow> ts \<in> set slots \<Longrightarrow>
        map_of (assignments st') (slotKey (sc_classId c) (slot_day ts) (slot_period ts)) = None \<Longrightarrow>
        getDailySubjectCount st' (sc_classId c) (slot_day ts) (sc_subjectId c) < 2 \<Longrightarrow>
        find (availableTeacher (assignments st') ts) eligible = Some t \<Longrightarrow>
        P (makeAssignment c ts t st')"
  shows "P (placeSlots c eligible n slots st)"
  using assms
proof (induction slots arbitrary: n st)
  case Nil
  then show ?case by simp
next
  case (Cons ts rest)
  have rest: "\<And>m st'. P st' \<Longrightarrow> P (placeSlots c eligible m rest st')"
    by (rule Cons.IH) (auto intro: Cons.prems(2))
  show ?case
  proof (cases "find (availableTeacher (assignments st) ts) eligible")
    case None
    then show ?thesis using Cons.prems(1) rest by simp
  next
    case (Some t)
    show ?thesis
    proof (cases "sc_periodsNeeded c \<le> n \<or>
        map_of (assignments st) (slotKey (sc_classId c) (slot_day ts) (slot_period ts)) \<noteq> None \<or>
        2 \<le> getDailySubjectCount st (sc_classId c) (slot_day ts) (sc_subjectId c)")
      case True
      then show ?thesis using Cons.prems(1) rest by auto
    next
      case False
      then have "P (makeAssignment c ts t st)"
        using Cons.prems(1) Some by (intro Cons.prems(2)) auto
      then show ?thesis using False Some rest by simp
    qed
  qed
qed

lemma scheduleConstraint_preserves:
  assumes "P st"
    and step: "\<And>ts t st'. P st' \<Longrightarrow> ts \<in> set (prioritize i
          (\<lambda>ts. getDailySubjectCount st (sc_classId c) (slot_day ts) (sc_subjectId c)) timeSlots) \<Longrightarrow>
        map_of (assignments st') (slotKey (sc_classId c) (slot_day ts) (slot_period ts)) = None \<Longrightarrow>
        getDailySubjectCount st' (sc_classId c) (slot_day ts) (sc_subjectId c) < 2 \<Longrightarrow>
        t \<in> set (eligibleTeachers teachers c) \<Longrightarrow> availableTeacher (assignments st') ts t \<Longrightarrow>
        P (makeAssignment c ts t st')"
  shows "P (scheduleConstraint prioritize timeSlots teachers subjects i c st)"
proof -
  have "P (placeSlots c (eligibleTeachers teachers c) 0 slots st)"
    if "slots = prioritize i
          (\<lambda>ts. getDailySubjectCount st (sc_classId c) (slot_day ts) (sc_subjectId c)) timeSlots" for slots
  proof (rule placeSlots_preserves [where P = P and st = st, OF assms(1)])
    fix ts t st'
    assume a: "P st'" "ts \<in> set slots"
      "map_of (assignments st') (slotKey (sc_classId c) (slot_day ts) (slot_period ts)) = None"
      "getDailySubjectCount st' (sc_classId c) (slot_day ts) (sc_subjectId c) < 2"
      "find (availableTeacher (assignments st') ts) (eligibleTeachers teachers c) = Some t"
    from a(5) have "t \<in> set (eligibleTeachers teachers c)" "availableTeacher (assignments st') ts t"
      by (auto simp: find_Some_iff)
    with a that show "P (makeAssignment c ts t st')" by (intro step) auto
  qed
  then show ?thesis using assms(1)
    by (simp add: scheduleConstraint_def Let_def split: option.splits)
qed

lemma solveLoop_preserves:
  assumes "P st"
    and step: "\<And>c ts t st'. P st' \<Longrightarrow> c \<in> set cs \<Longrightarrow>
        map_of (assignments st') (slotKey (sc_classId c) (slot_day ts) (slot_period ts)) = None \<Longrightarrow>
        getDailySubjectCount st' (sc_classId c) (slot_day ts) (sc_subjectId c) < 2 \<Longrightarrow>
        t \<in> set (eligibleTeachers teachers c) \<Longrightarrow> availableTeacher (assignments st') ts t \<Longrightarrow>
        P (makeAssignment c ts t st')"
  shows "P (solveLoop prioritize timeSlots teachers subjects i cs st)"
  using assms
proof (induction cs arbitrary: i st)
  case Nil
  then show ?case by simp
next
  case (Cons c cs)
  have "P (scheduleConstraint prioritize timeSlots teachers subjects i c st)"
    by (rule scheduleConstraint_preserves [where P = P and st = st, OF Cons.prems(1)]) (auto intro: Cons.prems(2))
  then show ?case
    by (simp, intro Cons.IH) (auto intro: Cons.prems(2))
qed

subsection \<open>The three invariants of a run\<close>

lemma capInv_empty: "capInv emptySolverState"
  by (simp add: capInv_def emptySolverState_def countOn_def getDailySubjectCount_def)

lemma capInv_step:
  assumes "capInv st"
    and "getDailySubjectCount st (sc_classId c) (slot_day ts) (sc_subjectId c) < 2"
  shows "capInv (makeAssignment c ts t st)"
  unfolding capInv_def
proof (intro allI)
  fix c' d' s'
  have a: "countOn c' d' s' (schedule st) \<le> getDailySubjectCount st c' d' s'"
       "getDailySubjectCount st c' d' s' \<le> 2"
    using assms(1) by (auto simp: capInv_def)
  have same: "getDailySubjectCount st c' d' s' = getDailySubjectCount st (sc_classId c) (slot_day ts) (sc_subjectId c)"
    if "dayKey c' d' = dayKey (sc_classId c) (slot_day ts)" "s' = sc_subjectId c"
    using that by (simp add: getDailySubjectCount_def)
  have cnt: "countOn c' d' s' (schedule (makeAssignment c ts t st)) =
     countOn c' d' s' (schedule st) +
       (if c' = sc_classId c \<and> d' = slot_day ts \<and> s' = sc_subjectId c then 1 else 0)"
    by (auto simp: schedule_makeAssignment countOn_def makeEntry_def)
  show "countOn c' d' s' (schedule (makeAssignment c ts t st))
          \<le> getDailySubjectCount (makeAssignment c ts t st) c' d' s'
        \<and> getDailySubjectCount (makeAssignment c ts t st) c' d' s' \<le> 2"
    using a same assms(2) unfolding cnt getDaily_makeAssignment by auto
qed

lemma capInv_solveLoop:
  "capInv st \<Longrightarrow> capInv (solveLoop prioritize timeSlots teachers subjects i cs st)"
  by (rule solveLoop_preserves [where P = capInv]) (auto intro: capInv_step)

lemma eligible_subset_qualified:
  "set (eligibleTeachers teachers c) \<subseteq> set (qualifiedTeachers teachers c)"
  by (auto simp: eligibleTeachers_def Let_def)

lemma qualified_props:
  "t \<in> set (qualifiedTeachers teachers c) \<Longrightarrow>
     t \<in> set teachers \<and> t_isActive t \<and> sc_subjectId c \<in> set (t_subjects t)"
  by (auto simp: qualifiedTeachers_def)

lemma availableTeacher_availability:
  "availableTeacher asg ts t \<Longrightarrow>
     (case t_availability t (slot_day ts) of
        None \<Rightarrow> True
      | Some av \<Rightarrow> av = [] \<or> (slot_startTime ts @ ''-'' @ slot_endTime ts) \<in> set av)"
  by (auto simp: availableTeacher_def split: option.splits if_splits)

lemma suitable_makeEntry:
  assumes "t \<in> set (eligibleTeachers teachers c)" and "availableTeacher asg ts t"
  shows "suitableTeacher teachers (makeEntry c ts t)"
proof -
  from assms(1) have q: "t \<in> set teachers" "t_isActive t" "sc_subjectId c \<in> set (t_subjects t)"
    using eligible_subset_qualified qualified_props by blast+
  from availableTeacher_availability [OF assms(2)] q show ?thesis
    unfolding suitableTeacher_def
    by (intro bexI [of _ t]) (auto simp: makeEntry_def split: option.splits)
qed

lemma suitable_solveLoop:
  assumes "list_all (suitableTeacher teachers) (schedule st)"
  shows "list_all (suitableTeacher teachers)
           (schedule (solveLoop prioritize timeSlots teachers subjects i cs st))"
  by (rule solveLoop_preserves [where P = "\<lambda>s. list_all (suitableTeacher teachers) (schedule s)", OF assms])
     (simp add: schedule_makeAssignment suitable_makeEntry)

lemma classInv_empty: "classInv emptySolverState"
  by (simp add: classInv_def emptySolverState_def)

lemma classInv_step:
  assumes "classInv st"
    and "map_of (assignments st) (slotKey (sc_classId c) (slot_day ts) (slot_period ts)) = None"
  shows "classInv (makeAssignment c ts t st)"
proof -
  have "classSlot (makeEntry c ts t) \<notin> set (map classSlot (schedule st))"
  proof
    assume "classSlot (makeEntry c ts t) \<in> set (map classSlot (schedule st))"
    then obtain e where e: "e \<in> set (schedule st)" "classSlot e = classSlot (makeEntry c ts t)"
      by auto
    then have "map_of (assignments st) (slotKey (te_classId e) (te_day e) (te_period e)) \<noteq> None"
      using assms(1) by (auto simp: classInv_def list_all_iff)
    moreover have "te_classId e = sc_classId c" "te_day e = slot_day ts" "te_period e = slot_period ts"
      using e(2) by (auto simp: classSlot_def makeEntry_def)
    ultimately show False using assms(2) by simp
  qed
  then show ?thesis
    using assms(1)
    by (auto simp: classInv_def schedule_makeAssignment assignments_makeAssignment
          list_all_iff makeEntry_def)
qed

lemma class_slots_distinct:
  "distinct (map classSlot (solveSchedule shuffle prioritize timeSlots constraints teachers subjects))"
proof -
  have "classInv (solveLoop prioritize timeSlots teachers subjects 0 (shuffle constraints) emptySolverState)"
    by (rule solveLoop_preserves [where P = classInv, OF classInv_empty]) (auto intro: classInv_step)
  then show ?thesis by (simp add: classInv_def solveSchedule_def)
qed

section \<open>Claims about the solver\<close>

subsection \<open>Teacher double booking\<close>

text \<open>
  C1. Claim: in the list one run of \<open>solveSchedule\<close> returns, no two entries share
  (teacherId, day, period), and no two entries of one class share (day, period).

  The class half holds for every run (lemma \<open>class_slots_distinct\<close>). The teacher half
  does not: the callback of \<open>find\<close> returns \<open>true\<close> for a teacher whose availability
  list for the day is empty before it reaches the walk over \<open>assignments\<close>. With two
  classes, one subject, one slot and one teacher who has the default availability, the run
  places the same teacher in both classes at monday, period 1.
\<close>

theorem teacher_double_booked:
  "map teacherSlot
     (solveSchedule keepOrder keepSlots [monday 1 ''08:00'' ''08:45'']
        [needs ''c1'' ''s1'' 1 [], needs ''c2'' ''s1'' 1 []]
        [teacherOf ''t1'' defaultAvailability] [maths])
   = [(''t1'', ''monday'', 1), (''t1'', ''monday'', 1)]"
  by code_simp

text \<open>
  A teacher with a listed availability does reach the walk over the keys. It takes the
  second and third dash-separated pieces of \<open>classId-day-period\<close>, so it finds the day
  and the period only when the class id has no dash: with ids \<open>c1\<close> and \<open>c2\<close> the second
  class gets no teacher, with ids \<open>class-1\<close> and \<open>class-2\<close> the teacher is booked twice.
\<close>

lemma dashed_class_ids_double_booked:
  "map teacherSlot
     (solveSchedule keepOrder keepSlots [monday 1 ''08:00'' ''08:45'']
        [needs ''class-1'' ''s1'' 1 [], needs ''class-2'' ''s1'' 1 []]
        [teacherOf ''t1'' [''monday'' \<mapsto> [''08:00-08:45'']]] [maths])
   = [(''t1'', ''monday'', 1), (''t1'', ''monday'', 1)]"
  by code_simp

lemma listed_teacher_check_reached:
  "map teacherSlot
     (solveSchedule keepOrder keepSlots [monday 1 ''08:00'' ''08:45'']
        [needs ''c1'' ''s1'' 1 [], needs ''c2'' ''s1'' 1 []]
        [teacherOf ''t1'' [''monday'' \<mapsto> [''08:00-08:45'']]] [maths])
   = [(''t1'', ''monday'', 1)]"
  by code_simp

subsection \<open>Daily cap\<close>

text \<open>
  C2. For every class, day and subject, one run of \<open>solveSchedule\<close> returns at most two
  entries, whatever the two sorts produce. A slot whose day already counts two periods of
  the subject for the class is passed over by the inner loop (which stops instead when the
  constraint is already filled), and every placement adds one to that count.
\<close>

theorem daily_subject_cap:
  "countOn classId d subjectId
     (solveSchedule shuffle prioritize timeSlots constraints teachers subjects) \<le> 2
   \<and> (2 \<le> getDailySubjectCount st (sc_classId c) (slot_day ts) (sc_subjectId c) \<longrightarrow>
        placeSlots c eligible n (ts # rest) st =
          (if sc_periodsNeeded c \<le> n then st else placeSlots c eligible n rest st))
   \<and> getDailySubjectCount (makeAssignment c ts t st) (sc_classId c) (slot_day ts) (sc_subjectId c)
       = getDailySubjectCount st (sc_classId c) (slot_day ts) (sc_subjectId c) + 1"
proof (intro conjI impI)
  have "capInv (solveLoop prioritize timeSlots teachers subjects 0 (shuffle constraints) emptySolverState)"
    by (rule capInv_solveLoop [OF capInv_empty])
  then show "countOn classId d subjectId
     (solveSchedule shuffle prioritize timeSlots constraints teachers subjects) \<le> 2"
    unfolding capInv_def solveSchedule_def by (meson le_trans)
next
  assume "2 \<le> getDailySubjectCount st (sc_classId c) (slot_day ts) (sc_subjectId c)"
  then show "placeSlots c eligible n (ts # rest) st =
          (if sc_periodsNeeded c \<le> n then st else placeSlots c eligible n rest st)"
    by simp
next
  show "getDailySubjectCount (makeAssignment c ts t st) (sc_classId c) (slot_day ts) (sc_subjectId c)
       = getDailySubjectCount st (sc_classId c) (slot_day ts) (sc_subjectId c) + 1"
    by (simp add: getDaily_makeAssignment)
qed

text \<open>
  Three periods are asked for on a grid of three monday slots: two are placed, and from
  the state after the second placement the third slot is passed over.
\<close>

theorem daily_subject_cap_witness:
  "countOn ''c1'' ''monday'' ''s1''
     (solveSchedule keepOrder keepSlots
        [monday 1 ''08:00'' ''08:45'', monday 2 ''08:45'' ''09:30'', monday 3 ''09:30'' ''10:15'']
        [needs ''c1'' ''s1'' 3 []] [teacherOf ''t1'' defaultAvailability] [maths]) = 2
   \<and> 2 \<le> getDailySubjectCount twoPlaced ''c1'' ''monday'' ''s1''
   \<and> placeSlots (needs ''c1'' ''s1'' 3 []) [teacherOf ''t1'' defaultAvailability] 2
         [monday 3 ''09:30'' ''10:15''] twoPlaced = twoPlaced"
proof -
  have run: "countOn ''c1'' ''monday'' ''s1''
     (solveSchedule keepOrder keepSlots
        [monday 1 ''08:00'' ''08:45'', monday 2 ''08:45'' ''09:30'', monday 3 ''09:30'' ''10:15'']
        [needs ''c1'' ''s1'' 3 []] [teacherOf ''t1'' defaultAvailability] [maths]) = 2"
    by code_simp
  have full: "2 \<le> getDailySubjectCount twoPlaced ''c1'' ''monday'' ''s1''"
    by code_simp
  have c: "sc_classId (needs ''c1'' ''s1'' 3 []) = ''c1''" "sc_subjectId (needs ''c1'' ''s1'' 3 []) = ''s1''"
    "sc_periodsNeeded (needs ''c1'' ''s1'' 3 []) = 3" "slot_day (monday 3 ''09:30'' ''10:15'') = ''monday''"
    by (simp_all add: needs_def monday_def)
  from daily_subject_cap [of "''c1''" "''monday''" "''s1''" keepOrder keepSlots
      "[monday 1 ''08:00'' ''08:45'', monday 2 ''08:45'' ''09:30'', monday 3 ''09:30'' ''10:15'']"
      "[needs ''c1'' ''s1'' 3 []]" "[teacherOf ''t1'' defaultAvailability]" "[maths]"
      twoPlaced "needs ''c1'' ''s1'' 3 []" "monday 3 ''09:30'' ''10:15''"
      "[teacherOf ''t1'' defaultAvailability]" 2 "[]"]
  have "placeSlots (needs ''c1'' ''s1'' 3 []) [teacherOf ''t1'' defaultAvailability] 2
         [monday 3 ''09:30'' ''10:15''] twoPlaced = twoPlaced"
    using full by (simp add: c)
  with run full show ?thesis by simp
qed

subsection \<open>The teacher of an entry\<close>

text \<open>
  C7. Every entry \<open>solveSchedule\<close> returns names a teacher of the roster who is active,
  whose subjects contain the entry's subject, and whose availability list for the entry's
  day is empty (or absent) or contains the string \<open>startTime-endTime\<close> of the entry.
\<close>

theorem entries_name_suitable_teacher:
  "\<forall>e \<in> set (solveSchedule shuffle prioritize timeSlots constraints teachers subjects).
     suitableTeacher teachers e"
proof -
  have "list_all (suitableTeacher teachers)
     (schedule (solveLoop prioritize timeSlots teachers subjects 0 (shuffle constraints) emptySolverState))"
    by (rule suitable_solveLoop) (simp add: emptySolverState_def)
  then show ?thesis by (simp add: solveSchedule_def list_all_iff)
qed

text \<open>One class, one slot, and a teacher who lists exactly that slot on monday.\<close>

theorem entries_name_suitable_teacher_witness:
  "solveSchedule keepOrder keepSlots [monday 1 ''08:00'' ''08:45'']
      [needs ''c1'' ''s1'' 1 []] [teacherOf ''t1'' [''monday'' \<mapsto> [''08:00-08:45'']]] [maths]
    = [makeEntry (needs ''c1'' ''s1'' 1 []) (monday 1 ''08:00'' ''08:45'')
         (teacherOf ''t1'' [''monday'' \<mapsto> [''08:00-08:45'']])]
   \<and> suitableTeacher [teacherOf ''t1'' [''monday'' \<mapsto> [''08:00-08:45'']]]
        (makeEntry (needs ''c1'' ''s1'' 1 []) (monday 1 ''08:00'' ''08:45'')
           (teacherOf ''t1'' [''monday'' \<mapsto> [''08:00-08:45'']]))"
proof -
  have run: "solveSchedule keepOrder keepSlots [monday 1 ''08:00'' ''08:45'']
      [needs ''c1'' ''s1'' 1 []] [teacherOf ''t1'' [''monday'' \<mapsto> [''08:00-08:45'']]] [maths]
    = [makeEntry (needs ''c1'' ''s1'' 1 []) (monday 1 ''08:00'' ''08:45'')
         (teacherOf ''t1'' [''monday'' \<mapsto> [''08:00-08:45'']])]"
    by code_simp
  from entries_name_suitable_teacher [of keepOrder keepSlots "[monday 1 ''08:00'' ''08:45'']"
      "[needs ''c1'' ''s1'' 1 []]" "[teacherOf ''t1'' [''monday'' \<mapsto> [''08:00-08:45'']]]" "[maths]"]
  show ?thesis unfolding run by simp
qed

subsection \<open>Preferred teachers\<close>









section \<open>Claims about the version table\<close>

subsection \<open>One call of setActiveVersion\<close>

text \<open>
  A call whose id is found rewrites every row by \<open>afterCall\<close>: the named row becomes
  active, the other rows of the class and week of the named row become inactive. The
  safety check after the two updates repeats them, which changes nothing.
\<close>

lemma filter_unique_key:
  "distinct (map f xs) \<Longrightarrow> x \<in> set xs \<Longrightarrow> filter (\<lambda>y. f y = f x) xs = [x]"
proof (induction xs)
  case Nil
  then show ?case by simp
next
  case (Cons a xs)
  show ?case
  proof (cases "a = x")
    case True
    then have "f x \<notin> f ` set xs" using Cons.prems(1) by simp
    then have "\<forall>y \<in> set xs. f y \<noteq> f x" by (metis imageI)
    then have "filter (\<lambda>y. f y = f x) xs = []" by (simp add: filter_empty_conv)
    with True show ?thesis by simp
  next
    case False
    then have "x \<in> set xs" using Cons.prems(2) by simp
    moreover from this have "f a \<noteq> f x" using Cons.prems(1) by auto
    ultimately show ?thesis using Cons by simp
  qed
qed

lemma afterCall_keeps [simp]:
  "tv_id (afterCall versionId g v) = tv_id v"
  "groupOf (afterCall versionId g v) = groupOf v"
  "tv_classId (afterCall versionId g v) = tv_classId v"
  by (simp_all add: afterCall_def groupOf_def)

lemma afterCall_twice: "afterCall versionId g (afterCall versionId g v) = afterCall versionId g v"
  by (simp add: afterCall_def groupOf_def)

lemma one_pass_versions:
  "db_versions (activateVersion versionId (deactivateWeek classId weekStart weekEnd st)) =
     map (afterCall versionId (classId, weekStart, weekEnd)) (db_versions st)"
  by (auto simp: activateVersion_def deactivateWeek_def afterCall_def groupOf_def)

lemma setActiveVersion_versions:
  assumes "filter (\<lambda>w. tv_id w = versionId) (db_versions st) = v # rest"
  shows "db_versions (setActiveVersion versionId classId st) =
           map (afterCall versionId (classId, tv_weekStart v, tv_weekEnd v)) (db_versions st)"
proof -
  let ?g = "(classId, tv_weekStart v, tv_weekEnd v)"
  let ?st2 = "activateVersion versionId (deactivateWeek classId (tv_weekStart v) (tv_weekEnd v) st)"
  have one: "db_versions ?st2 = map (afterCall versionId ?g) (db_versions st)"
    by (rule one_pass_versions)
  have two: "db_versions (activateVersion versionId
               (deactivateWeek classId (tv_weekStart v) (tv_weekEnd v) ?st2))
             = map (afterCall versionId ?g) (db_versions st)"
    unfolding one_pass_versions [of versionId classId "tv_weekStart v" "tv_weekEnd v" ?st2] one
    by (simp add: afterCall_twice)
  show ?thesis
    using assms one two by (simp add: setActiveVersion_def Let_def)
qed

lemma setActiveVersion_unknown:
  "filter (\<lambda>w. tv_id w = versionId) (db_versions st) = [] \<Longrightarrow>
     setActiveVersion versionId classId st = st"
  by (simp add: setActiveVersion_def)

lemma setActiveVersion_keeps:
  "map tv_id (db_versions (setActiveVersion versionId classId st)) = map tv_id (db_versions st)"
  "map groupOf (db_versions (setActiveVersion versionId classId st)) = map groupOf (db_versions st)"
  "map (\<lambda>v. (tv_id v, tv_classId v, groupOf v)) (db_versions (setActiveVersion versionId classId st))
     = map (\<lambda>v. (tv_id v, tv_classId v, groupOf v)) (db_versions st)"
proof -
  show "map tv_id (db_versions (setActiveVersion versionId classId st)) = map tv_id (db_versions st)"
  proof (cases "filter (\<lambda>w. tv_id w = versionId) (db_versions st)")
    case Nil
    then show ?thesis by (simp add: setActiveVersion_unknown)
  next
    case (Cons v rest)
    then show ?thesis by (simp add: setActiveVersion_versions [OF Cons] comp_def)
  qed
  show "map groupOf (db_versions (setActiveVersion versionId classId st)) = map groupOf (db_versions st)"
  proof (cases "filter (\<lambda>w. tv_id w = versionId) (db_versions st)")
    case Nil
    then show ?thesis by (simp add: setActiveVersion_unknown)
  next
    case (Cons v rest)
    then show ?thesis by (simp add: setActiveVersion_versions [OF Cons] comp_def)
  qed
  show "map (\<lambda>v. (tv_id v, tv_classId v, groupOf v)) (db_versions (setActiveVersion versionId classId st))
     = map (\<lambda>v. (tv_id v, tv_classId v, groupOf v)) (db_versions st)"
  proof (cases "filter (\<lambda>w. tv_id w = versionId) (db_versions st)")
    case Nil
    then show ?thesis by (simp add: setActiveVersion_unknown)
  next
    case (Cons v rest)
    then show ?thesis by (simp add: setActiveVersion_versions [OF Cons] comp_def)
  qed
qed

lemma validCall_alt:
  "validCall st call = ((fst call, snd call) \<in> (\<lambda>t. (fst t, fst (snd t))) ` set (map (\<lambda>v. (tv_id v, tv_classId v, groupOf v)) (db_versions st)))"
  by (force simp: validCall_def)

lemma targets_alt:
  "targets st call g = ((fst call, snd call, g) \<in> set (map (\<lambda>v. (tv_id v, tv_classId v, groupOf v)) (db_versions st)))"
  by (force simp: targets_def)

lemma setActiveVersion_validCall:
  "validCall (setActiveVersion versionId classId st) call = validCall st call"
  unfolding validCall_alt setActiveVersion_keeps(3) ..

lemma setActiveVersion_targets:
  "targets (setActiveVersion versionId classId st) call g = targets st call g"
  unfolding targets_alt setActiveVersion_keeps(3) ..

lemma setActiveVersion_target_group:
  assumes d: "distinct (map tv_id (db_versions st))"
    and t: "targets st (versionId, classId) g"
  shows "singleActive g (setActiveVersion versionId classId st)"
proof -
  from t obtain v where v: "v \<in> set (db_versions st)" "tv_id v = versionId"
    "tv_classId v = classId" "groupOf v = g"
    by (auto simp: targets_def)
  have f: "filter (\<lambda>w. tv_id w = versionId) (db_versions st) = [v]"
    using filter_unique_key [OF d v(1)] v(2) by simp
  have g: "g = (classId, tv_weekStart v, tv_weekEnd v)"
    using v(3,4) by (simp add: groupOf_def)
  have only: "w = v" if "w \<in> set (db_versions st)" "tv_id w = versionId" for w
  proof -
    have "w \<in> set (filter (\<lambda>w. tv_id w = versionId) (db_versions st))" using that by simp
    then show ?thesis unfolding f by simp
  qed
  have "filter (\<lambda>w. groupOf (afterCall versionId g w) = g \<and> tv_isActive (afterCall versionId g w))
          (db_versions st) = filter (\<lambda>w. tv_id w = versionId) (db_versions st)"
  proof (rule filter_cong [OF refl])
    fix w assume "w \<in> set (db_versions st)"
    then show "(groupOf (afterCall versionId g w) = g \<and> tv_isActive (afterCall versionId g w))
                 = (tv_id w = versionId)"
      using only [of w] v(4) by (auto simp: afterCall_def groupOf_def)
  qed
  then show ?thesis
    unfolding singleActive_def setActiveVersion_versions [OF f] g [symmetric]
    by (simp add: filter_map comp_def f)
qed

lemma setActiveVersion_other_group:
  assumes d: "distinct (map tv_id (db_versions st))"
    and t: "targets st (versionId, classId) g" and ne: "g' \<noteq> g"
  shows "singleActive g' (setActiveVersion versionId classId st) = singleActive g' st"
proof -
  from t obtain v where v: "v \<in> set (db_versions st)" "tv_id v = versionId"
    "tv_classId v = classId" "groupOf v = g"
    by (auto simp: targets_def)
  have f: "filter (\<lambda>w. tv_id w = versionId) (db_versions st) = [v]"
    using filter_unique_key [OF d v(1)] v(2) by simp
  have g: "g = (classId, tv_weekStart v, tv_weekEnd v)"
    using v(3,4) by (simp add: groupOf_def)
  have only: "w = v" if "w \<in> set (db_versions st)" "tv_id w = versionId" for w
  proof -
    have "w \<in> set (filter (\<lambda>w. tv_id w = versionId) (db_versions st))" using that by simp
    then show ?thesis unfolding f by simp
  qed
  have "filter (\<lambda>w. groupOf (afterCall versionId g w) = g' \<and> tv_isActive (afterCall versionId g w))
          (db_versions st) = filter (\<lambda>w. groupOf w = g' \<and> tv_isActive w) (db_versions st)"
  proof (rule filter_cong [OF refl])
    fix w assume "w \<in> set (db_versions st)"
    then show "(groupOf (afterCall versionId g w) = g' \<and> tv_isActive (afterCall versionId g w))
                 = (groupOf w = g' \<and> tv_isActive w)"
      using only [of w] v(4) ne by (auto simp: afterCall_def groupOf_def)
  qed
  then show ?thesis
    unfolding singleActive_def setActiveVersion_versions [OF f] g [symmetric]
    by (simp add: filter_map comp_def)
qed

subsection \<open>A sequence of calls\<close>

lemma runCalls_single_active:
  assumes "distinct (map tv_id (db_versions st))"
    and "\<forall>call \<in> set calls. validCall st call"
    and "(\<exists>call \<in> set calls. targets st call g) \<or> singleActive g st"
  shows "singleActive g (runCalls calls st)"
  using assms
proof (induction calls arbitrary: st)
  case Nil
  then show ?case by simp
next
  case (Cons call calls)
  let ?st' = "setActiveVersion (fst call) (snd call) st"
  have d': "distinct (map tv_id (db_versions ?st'))"
    using Cons.prems(1) by (simp add: setActiveVersion_keeps(1))
  have v': "\<forall>c \<in> set calls. validCall ?st' c"
    using Cons.prems(2) by (simp add: setActiveVersion_validCall)
  from Cons.prems(2) obtain v0 where "v0 \<in> set (db_versions st)" "tv_id v0 = fst call"
    "tv_classId v0 = snd call"
    by (auto simp: validCall_def)
  then have "targets st (fst call, snd call) (groupOf v0)"
    by (auto simp: targets_def)
  then obtain g0 where g0: "targets st (fst call, snd call) g0" ..
  have "(\<exists>c \<in> set calls. targets ?st' c g) \<or> singleActive g ?st'"
  proof (cases "\<exists>c \<in> set calls. targets st c g")
    case True
    then show ?thesis by (simp add: setActiveVersion_targets)
  next
    case False
    show ?thesis
    proof (cases "g = g0")
      case True
      then show ?thesis using setActiveVersion_target_group [OF Cons.prems(1) g0] by simp
    next
      case ne: False
      have "\<not> targets st call g"
      proof
        assume "targets st call g"
        then obtain v where v: "v \<in> set (db_versions st)" "tv_id v = fst call" "groupOf v = g"
          by (auto simp: targets_def)
        from g0 obtain v1 where v0: "v1 \<in> set (db_versions st)" "tv_id v1 = fst call" "groupOf v1 = g0"
          by (auto simp: targets_def)
        have "v = v1" using Cons.prems(1) v(1,2) v0(1,2)
          by (metis distinct_map inj_onD)
        then show False using v(3) v0(3) ne by simp
      qed
      with False Cons.prems(3) have "singleActive g st" by auto
      then show ?thesis
        using setActiveVersion_other_group [OF Cons.prems(1) g0 ne] by simp
    qed
  qed
  from Cons.IH [OF d' v' this] show ?case by simp
qed

text \<open>
  C3. Claim: after any sequence of valid \<open>setActiveVersion\<close> calls, every class and week
  that has a version has exactly one active version.

  A call touches only the class and week of the version it names. Two classes with one
  inactive version each, and one call for the second class: the first class still has a
  version and no active one.
\<close>

theorem single_active_version_counterexample:
  "distinct (map tv_id (db_versions (tablesWith [versionOf ''v1'' ''A'' False, versionOf ''v2'' ''B'' False])))
   \<and> validCall (tablesWith [versionOf ''v1'' ''A'' False, versionOf ''v2'' ''B'' False]) (''v2'', ''B'')
   \<and> hasVersion (''A'', ''2025-01-06'', ''2025-01-11'')
        (runCalls [(''v2'', ''B'')] (tablesWith [versionOf ''v1'' ''A'' False, versionOf ''v2'' ''B'' False]))
   \<and> \<not> singleActive (''A'', ''2025-01-06'', ''2025-01-11'')
        (runCalls [(''v2'', ''B'')] (tablesWith [versionOf ''v1'' ''A'' False, versionOf ''v2'' ''B'' False]))"
  by code_simp

text \<open>
  C3, amended. On a version table with unique ids, after any sequence of calls each of
  which names an existing version of the class it passes, a class and week has exactly one
  active version if it is the class and week of the version named by at least one of the
  calls, or if it had exactly one active version before the sequence.
\<close>

theorem single_active_version:
  assumes "distinct (map tv_id (db_versions st))"
    and "\<forall>call \<in> set calls. validCall st call"
    and "(\<exists>call \<in> set calls. targets st call g) \<or> singleActive g st"
  shows "singleActive g (runCalls calls st)"
  using assms by (rule runCalls_single_active)

text \<open>
  Class \<open>A\<close> starts with two active versions and is named by the calls; class \<open>B\<close> starts
  with one active version and is not.
\<close>

theorem single_active_version_witness:
  "distinct (map tv_id (db_versions
      (tablesWith [versionOf ''v1'' ''A'' True, versionOf ''v3'' ''A'' True, versionOf ''v2'' ''B'' True])))
   \<and> validCall (tablesWith [versionOf ''v1'' ''A'' True, versionOf ''v3'' ''A'' True,
                            versionOf ''v2'' ''B'' True]) (''v3'', ''A'')
   \<and> validCall (tablesWith [versionOf ''v1'' ''A'' True, versionOf ''v3'' ''A'' True,
                            versionOf ''v2'' ''B'' True]) (''v1'', ''A'')
   \<and> targets (tablesWith [versionOf ''v1'' ''A'' True, versionOf ''v3'' ''A'' True, versionOf ''v2'' ''B'' True])
        (''v3'', ''A'') (''A'', ''2025-01-06'', ''2025-01-11'')
   \<and> singleActive (''B'', ''2025-01-06'', ''2025-01-11'')
        (tablesWith [versionOf ''v1'' ''A'' True, versionOf ''v3'' ''A'' True, versionOf ''v2'' ''B'' True])
   \<and> \<not> singleActive (''A'', ''2025-01-06'', ''2025-01-11'')
        (tablesWith [versionOf ''v1'' ''A'' True, versionOf ''v3'' ''A'' True, versionOf ''v2'' ''B'' True])
   \<and> singleActive (''A'', ''2025-01-06'', ''2025-01-11'')
        (runCalls [(''v3'', ''A''), (''v1'', ''A'')]
           (tablesWith [versionOf ''v1'' ''A'' True, versionOf ''v3'' ''A'' True, versionOf ''v2'' ''B'' True]))
   \<and> singleActive (''B'', ''2025-01-06'', ''2025-01-11'')
        (runCalls [(''v3'', ''A''), (''v1'', ''A'')]
           (tablesWith [versionOf ''v1'' ''A'' True, versionOf ''v3'' ''A'' True, versionOf ''v2'' ''B'' True]))"
proof -
  let ?st = "tablesWith [versionOf ''v1'' ''A'' True, versionOf ''v3'' ''A'' True, versionOf ''v2'' ''B'' True]"
  let ?calls = "[(''v3'', ''A''), (''v1'', ''A'')]"
  have d: "distinct (map tv_id (db_versions ?st))"
    by (simp add: tablesWith_def versionOf_def)
  have v1: "validCall ?st (''v3'', ''A'')" and v2: "validCall ?st (''v1'', ''A'')"
    by (simp_all add: validCall_def tablesWith_def versionOf_def)
  then have v: "\<forall>call \<in> set ?calls. validCall ?st call"
    by simp
  have t: "targets ?st (''v3'', ''A'') (''A'', ''2025-01-06'', ''2025-01-11'')"
    by (simp add: targets_def tablesWith_def versionOf_def groupOf_def)
  have b: "singleActive (''B'', ''2025-01-06'', ''2025-01-11'') ?st"
    by (simp add: singleActive_def tablesWith_def versionOf_def groupOf_def)
  have a: "\<not> singleActive (''A'', ''2025-01-06'', ''2025-01-11'') ?st"
    by (simp add: singleActive_def tablesWith_def versionOf_def groupOf_def)
  have ra: "singleActive (''A'', ''2025-01-06'', ''2025-01-11'') (runCalls ?calls ?st)"
    by (rule single_active_version [OF d v]) (use t in simp)
  have rb: "singleActive (''B'', ''2025-01-06'', ''2025-01-11'') (runCalls ?calls ?st)"
    by (rule single_active_version [OF d v]) (use b in simp)
  from d v1 v2 t b a ra rb show ?thesis by blast
qed

section \<open>Claims about generateTimetable\<close>

subsection \<open>A run whose solver returns nothing\<close>












subsection \<open>The time grid of a run\<close>

text \<open>
  With a structure the grid is rebuilt from it, break slots left out. Without one the
  field is not assigned: the grid is the one the scheduler object held before the call,
  which is the default grid only on an object that has not yet loaded a structure.
\<close>

lemma grid_without_structure_unchanged:
  "fetch sid = Some None \<Longrightarrow> initializeFromStructure fetch (Some sid) timeSlots = timeSlots"
  by (simp add: initializeFromStructure_def)

lemma new_scheduler_grid:
  "map slot_day newScheduler = concat (map (replicate 8) defaultDays)
   \<and> map (\<lambda>ts. (slot_period ts, slot_startTime ts, slot_endTime ts)) (take 8 newScheduler) = periodTimes"
  by code_simp

lemma structure_grid_skips_breaks:
  assumes "fetch sid = Some (Some structure)" "sid \<noteq> []" "str_workingDays structure = Some ds"
    "str_timeSlots structure = Some ss"
  shows "initializeFromStructure fetch (Some sid) timeSlots =
           concat (map (\<lambda>d. map (\<lambda>slot. \<lparr>slot_day = d, slot_period = ss_period slot,
                     slot_startTime = ss_startTime slot, slot_endTime = ss_endTime slot\<rparr>)
                   (filter (\<lambda>slot. ss_isBreak slot \<noteq> Some True) ss)) ds)"
  using assms by (simp add: initializeFromStructure_def)

text \<open>
  C4. Claim: every run derives its grid afresh from the school's structure, and a school
  without a structure gets the default grid of five weekdays and eight periods.

  The module exports one scheduler object. After a run for a class of school \<open>A\<close>, whose
  structure has saturday with one teaching period, a run for a class of school \<open>B\<close>,
  which has no structure, schedules on the grid of school \<open>A\<close>: its entry is placed on
  saturday, period 1. On a new scheduler object the same run uses the default grid.
\<close>

theorem grid_left_from_previous_school:
  "getTimetableStructureBySchool (snd (snd (runFor ''cA'' ''A'' newScheduler twoSchools))) ''B'' = None
   \<and> fst (snd (runFor ''cB'' ''B'' (fst (snd (runFor ''cA'' ''A'' newScheduler twoSchools)))
                  (snd (snd (runFor ''cA'' ''A'' newScheduler twoSchools)))))
       = [\<lparr>slot_day = ''saturday'', slot_period = 1, slot_startTime = ''09:00'', slot_endTime = ''09:45''\<rparr>]
   \<and> map classSlot (getTimetableEntries
        (snd (snd (runFor ''cB'' ''B'' (fst (snd (runFor ''cA'' ''A'' newScheduler twoSchools)))
                  (snd (snd (runFor ''cA'' ''A'' newScheduler twoSchools)))))))
       = [(''cA'', ''saturday'', 1), (''cB'', ''saturday'', 1)]
   \<and> length newScheduler = 40"
  by code_simp

lemma fresh_scheduler_uses_default_grid:
  "fst (snd (runFor ''cB'' ''B'' newScheduler twoSchools)) = newScheduler
   \<and> map classSlot (getTimetableEntries (snd (snd (runFor ''cB'' ''B'' newScheduler twoSchools))))
       = [(''cB'', ''monday'', 1)]"
  by code_simp

text \<open>
  The builder has no failing path: a rejected read is caught. The \<open>catch\<close> branch pushes
  the forty default slots onto the slots already held.
\<close>

lemma rejected_read_appends_defaults:
  "length (initializeFromStructure (\<lambda>sid. None) (Some ''B'') newScheduler) = 80"
  by code_simp

subsection \<open>Early failures\<close>

text \<open>
  C6. Claim: when the class is not found, no school is resolved, or the school has no
  classes, subjects or teachers, the call returns a failure before any version or entry is
  created.

  The code reads the subjects of all schools (\<open>storage.getSubjects()\<close> without the
  school id, beside \<open>storage.getTeachers(schoolId)\<close>). A school with a class and a teacher
  but no subject passes the check as soon as another school has a subject: the call
  creates version \<open>v0.1\<close> for the class and only then fails in the solver.
\<close>

theorem version_created_without_school_subjects:
  "getSubjects noSubjectInA (Some ''A'') = []
   \<and> db_versions noSubjectInA = []
   \<and> success (fst (runFor ''cA'' ''A'' newScheduler noSubjectInA)) = False
   \<and> db_versions (snd (snd (runFor ''cA'' ''A'' newScheduler noSubjectInA)))
       = [\<lparr>tv_id = ''v0'', tv_classId = ''cA'', tv_version = ''v0.1'', tv_weekStart = ''2025-01-06'',
           tv_weekEnd = ''2025-01-11'', tv_isActive = True\<rparr>]"
  by code_simp

text \<open>
  The other cases of the claim hold: a class that is not found, no class id and no school
  id, no class of the school, a class without school id, an empty subjects table or no
  active teacher of the school give a failure with a message and leave the tables alone.
\<close>

lemma input_absence_failure:
  assumes "generateTimetable shuffle prioritize genId weekStart weekEnd classId userSchoolId timeSlots st
             = (r, timeSlots', st')"
    and "(\<exists>cid. classId = Some cid \<and> cid \<noteq> [] \<and> getClass st cid = None)
         \<or> (\<not> truthy classId \<and> \<not> truthy userSchoolId)
         \<or> (\<exists>classes. resolveClasses st classId userSchoolId = Inr classes
               \<and> (classes = [] \<or> cls_schoolId (hd classes) = [] \<or> db_subjects st = []
                   \<or> getTeachers st (Some (cls_schoolId (hd classes))) = []))"
  shows "success r = False \<and> message r \<noteq> [] \<and> entriesCreated r = None \<and> st' = st"
  using assms
  by (auto simp: generateTimetable_def resolveClasses_def failure_def Let_def truthy_def
        getSubjects_def split: sum.splits if_splits prod.splits option.splits list.splits)

section \<open>Claims about validateTimetable\<close>

subsection \<open>The frequency check\<close>

lemma actualCountOf_update:
  "actualCountOf (m(c' \<mapsto> (case m c' of None \<Rightarrow> Map.empty | Some x \<Rightarrow> x)
       (s' \<mapsto> (case (case m c' of None \<Rightarrow> Map.empty | Some x \<Rightarrow> x) s' of None \<Rightarrow> 0 | Some n \<Rightarrow> n) + 1))) c s
     = actualCountOf m c s + (if c = c' \<and> s = s' then 1 else 0)"
  by (auto simp: actualCountOf_def split: option.splits)

lemma countLoop_counts:
  "actualCountOf (countLoop es m) c s =
     actualCountOf m c s + length (filter (\<lambda>e. te_classId e = c \<and> te_subjectId e = s) es)"
proof (induction es arbitrary: m)
  case Nil
  then show ?case by simp
next
  case (Cons e es)
  show ?case
    unfolding countLoop.simps Let_def Cons.IH actualCountOf_update by auto
qed

lemma actualCountOf_empty: "actualCountOf Map.empty c s = 0"
  by (simp add: actualCountOf_def)

lemma assignmentLoop_keeps_elem:
  "x \<in> set cs \<Longrightarrow> x \<in> set (assignmentLoop m classData rows cs)"
proof (induction rows arbitrary: cs)
  case Nil
  then show ?case by simp
next
  case (Cons r rows)
  then show ?case by (auto simp: Let_def intro!: Cons.IH)
qed

lemma assignmentLoop_keeps: "set cs \<subseteq> set (assignmentLoop m classData rows cs)"
  using assignmentLoop_keeps_elem by blast

lemma assignmentLoop_reports:
  assumes "a \<in> set rows"
    and "int (actualCountOf m (cls_id classData) (ar_subjectId a)) < ar_weeklyFrequency a"
  shows "insufficientMessage classData a (actualCountOf m (cls_id classData) (ar_subjectId a))
           \<in> set (assignmentLoop m classData rows cs)"
  using assms
proof (induction rows arbitrary: cs)
  case Nil
  then show ?case by simp
next
  case (Cons r rows)
  show ?case
  proof (cases "a = r")
    case True
    let ?msg = "insufficientMessage classData a (actualCountOf m (cls_id classData) (ar_subjectId a))"
    have "?msg \<in> set (cs @ [?msg])" by simp
    then show ?thesis
      using Cons.prems(2) True assignmentLoop_keeps [of "cs @ [?msg]" m classData rows]
      by (auto simp: Let_def)
  next
    case False
    then have "a \<in> set rows" using Cons.prems(1) by simp
    from Cons.IH [OF this Cons.prems(2)] show ?thesis by (simp add: Let_def)
  qed
qed

lemma frequencyLoop_keeps: "set cs \<subseteq> set (frequencyLoop st m classes cs)"
proof (induction classes arbitrary: cs)
  case Nil
  then show ?case by simp
next
  case (Cons c classes)
  have "set cs \<subseteq> set (assignmentLoop m c (getClassSubjectAssignments st (cls_id c)) cs)"
    by (rule assignmentLoop_keeps)
  also have "\<dots> \<subseteq> set (frequencyLoop st m (c # classes) cs)"
    using Cons.IH by simp
  finally show ?case .
qed

lemma frequencyLoop_reports:
  assumes "classData \<in> set classes"
    and "a \<in> set (getClassSubjectAssignments st (cls_id classData))"
    and "int (actualCountOf m (cls_id classData) (ar_subjectId a)) < ar_weeklyFrequency a"
  shows "insufficientMessage classData a (actualCountOf m (cls_id classData) (ar_subjectId a))
           \<in> set (frequencyLoop st m classes cs)"
  using assms(1)
proof (induction classes arbitrary: cs)
  case Nil
  then show ?case by simp
next
  case (Cons c classes)
  show ?case
  proof (cases "classData = c")
    case True
    have "insufficientMessage classData a (actualCountOf m (cls_id classData) (ar_subjectId a))
            \<in> set (assignmentLoop m c (getClassSubjectAssignments st (cls_id c)) cs)"
      using assignmentLoop_reports [OF assms(2,3)] True by simp
    then show ?thesis
      using frequencyLoop_keeps [of "assignmentLoop m c (getClassSubjectAssignments st (cls_id c)) cs" st m classes]
      by auto
  next
    case False
    then have "classData \<in> set classes" using Cons.prems by simp
    from Cons.IH [OF this] show ?thesis by simp
  qed
qed

lemma validate_counts:
  "actualCountOf (countLoop (getTimetableEntries st) Map.empty) c s = matchingEntries st c s"
  by (simp add: countLoop_counts actualCountOf_empty matchingEntries_def)

lemma row_of_assignment:
  assumes "a \<in> set (db_assignments st)" "csa_classId a = cid"
    and "s \<in> set (db_subjects st)" "sub_id s = csa_subjectId a"
  shows "\<lparr>ar_subjectId = csa_subjectId a, ar_weeklyFrequency = csa_weeklyFrequency a,
          ar_assignedTeacherId = csa_assignedTeacherId a, ar_subjectName = sub_name s\<rparr>
           \<in> set (getClassSubjectAssignments st cid)"
proof -
  have "\<lparr>ar_subjectId = csa_subjectId a, ar_weeklyFrequency = csa_weeklyFrequency a,
          ar_assignedTeacherId = csa_assignedTeacherId a, ar_subjectName = sub_name s\<rparr>
           \<in> set (assignmentRows st a)"
    unfolding assignmentRows_def using assms(3,4)
    by (auto simp: max_def intro!: bexI [of _ s])
  then show ?thesis
    using assms(1,2) by (auto simp: getClassSubjectAssignments_def)
qed

subsection \<open>Where the messages of the validator come from\<close>

lemma teacherLoop_sound:
  assumes "m \<in> set (teacherLoop allEntries es sched cs)"
  shows "m \<in> set cs \<or>
         (\<exists>e1 \<in> set es. \<exists>e2 \<in> set allEntries.
            teacherSlot e1 = teacherSlot e2 \<and> te_classId e2 \<noteq> te_classId e1
            \<and> m = teacherConflictMessage e1 e2)"
  using assms
proof (induction es arbitrary: sched cs)
  case Nil
  then show ?case by simp
next
  case (Cons entry rest)
  let ?P = "\<lambda>e. te_teacherId e = te_teacherId entry \<and> te_day e = te_day entry
                 \<and> te_period e = te_period entry \<and> te_classId e \<noteq> te_classId entry"
  let ?key = "te_day entry @ ''-'' @ show_int (te_period entry)"
  let ?slots = "case sched (te_teacherId entry) of None \<Rightarrow> {} | Some s \<Rightarrow> s"
  show ?case
  proof (cases "?key \<in> ?slots")
    case False
    with Cons.prems have "m \<in> set (teacherLoop allEntries rest
        (sched(te_teacherId entry \<mapsto> insert ?key ?slots)) cs)"
      by (simp add: Let_def)
    from Cons.IH [OF this] show ?thesis by auto
  next
    case True
    show ?thesis
    proof (cases "find ?P allEntries")
      case None
      with True Cons.prems have "m \<in> set (teacherLoop allEntries rest
          (sched(te_teacherId entry \<mapsto> ?slots)) cs)"
        by (simp add: Let_def)
      from Cons.IH [OF this] show ?thesis by auto
    next
      case (Some conflictEntry)
      then have c: "conflictEntry \<in> set allEntries" "?P conflictEntry"
        by (auto simp: find_Some_iff)
      from Some True Cons.prems have "m \<in> set (teacherLoop allEntries rest
          (sched(te_teacherId entry \<mapsto> ?slots)) (cs @ [teacherConflictMessage entry conflictEntry]))"
        by (simp add: Let_def)
      from Cons.IH [OF this] consider "m \<in> set cs" | "m = teacherConflictMessage entry conflictEntry"
        | "\<exists>e1 \<in> set rest. \<exists>e2 \<in> set allEntries.
            teacherSlot e1 = teacherSlot e2 \<and> te_classId e2 \<noteq> te_classId e1
            \<and> m = teacherConflictMessage e1 e2"
        by auto
      then show ?thesis
      proof cases
        case 1
        then show ?thesis by simp
      next
        case 2
        have "teacherSlot entry = teacherSlot conflictEntry" using c(2) by (simp add: teacherSlot_def)
        with 2 c show ?thesis by auto
      next
        case 3
        then show ?thesis by auto
      qed
    qed
  qed
qed

lemma roomLoop_sound:
  "m \<in> set (roomLoop es sched cs) \<Longrightarrow> m \<in> set cs \<or> (\<exists>room e. m = roomConflictMessage room e)"
proof (induction es arbitrary: sched cs)
  case Nil
  then show ?case by simp
next
  case (Cons entry rest)
  show ?case
  proof (cases "te_room entry")
    case None
    with Cons.prems have "m \<in> set (roomLoop rest sched cs)" by simp
    from Cons.IH [OF this] show ?thesis .
  next
    case (Some room)
    let ?key = "te_day entry @ ''-'' @ show_int (te_period entry)"
    let ?slots = "case sched room of None \<Rightarrow> {} | Some s \<Rightarrow> s"
    consider "room = []" | "room \<noteq> []" "?key \<in> ?slots" | "room \<noteq> []" "?key \<notin> ?slots" by blast
    then show ?thesis
    proof cases
      case 1
      with Some Cons.prems have "m \<in> set (roomLoop rest sched cs)" by simp
      from Cons.IH [OF this] show ?thesis .
    next
      case 2
      with Some Cons.prems have "m \<in> set (roomLoop rest (sched(room \<mapsto> ?slots))
          (cs @ [roomConflictMessage room entry]))" by (simp add: Let_def)
      from Cons.IH [OF this] show ?thesis by auto
    next
      case 3
      with Some Cons.prems have "m \<in> set (roomLoop rest (sched(room \<mapsto> insert ?key ?slots)) cs)"
        by (simp add: Let_def)
      from Cons.IH [OF this] show ?thesis .
    qed
  qed
qed

lemma assignmentLoop_sound:
  "m \<in> set (assignmentLoop cnt classData rows cs) \<Longrightarrow>
     m \<in> set cs \<or> (\<exists>c a n. m = insufficientMessage c a n) \<or> (\<exists>c a n. m = excessMessage c a n)"
proof (induction rows arbitrary: cs)
  case Nil
  then show ?case by simp
next
  case (Cons r rows)
  let ?n = "actualCountOf cnt (cls_id classData) (ar_subjectId r)"
  let ?cs1 = "if int ?n < ar_weeklyFrequency r then cs @ [insufficientMessage classData r ?n] else cs"
  let ?cs2 = "if int ?n > ar_weeklyFrequency r then ?cs1 @ [excessMessage classData r ?n] else ?cs1"
  have m: "m \<in> set (assignmentLoop cnt classData rows ?cs2)"
    using Cons.prems by (simp add: Let_def)
  have cs2: "\<forall>x \<in> set ?cs2. x \<in> set cs \<or> (\<exists>c a n. x = insufficientMessage c a n)
                \<or> (\<exists>c a n. x = excessMessage c a n)"
  proof -
    have "\<exists>c a n. insufficientMessage classData r ?n = insufficientMessage c a n"
      and "\<exists>c a n. excessMessage classData r ?n = excessMessage c a n"
      by blast+
    then show ?thesis by auto
  qed
  from Cons.IH [OF m] cs2 show ?case by blast
qed

lemma frequencyLoop_sound:
  "m \<in> set (frequencyLoop st cnt classes cs) \<Longrightarrow>
     m \<in> set cs \<or> (\<exists>c a n. m = insufficientMessage c a n) \<or> (\<exists>c a n. m = excessMessage c a n)"
proof (induction classes arbitrary: cs)
  case Nil
  then show ?case by simp
next
  case (Cons c classes)
  from Cons.prems have "m \<in> set (frequencyLoop st cnt classes
      (assignmentLoop cnt c (getClassSubjectAssignments st (cls_id c)) cs))" by simp
  from Cons.IH [OF this] assignmentLoop_sound [of m cnt c "getClassSubjectAssignments st (cls_id c)" cs]
  show ?case by blast
qed

lemma other_messages_not_teacher:
  "\<not> prefix ''Teacher conflict: '' (roomConflictMessage room e)"
  "\<not> prefix ''Teacher conflict: '' (insufficientMessage c a n)"
  "\<not> prefix ''Teacher conflict: '' (excessMessage c a n)"
  by (simp_all add: roomConflictMessage_def insufficientMessage_def excessMessage_def)

lemma teacher_message_prefix: "prefix ''Teacher conflict: '' (teacherConflictMessage e1 e2)"
  by (simp add: teacherConflictMessage_def)

lemma conflicts_teacher_messages:
  assumes "m \<in> set (conflicts (validateTimetable st))" "prefix ''Teacher conflict: '' m"
  shows "\<exists>e1 \<in> set (getTimetableEntries st). \<exists>e2 \<in> set (getTimetableEntries st).
            teacherSlot e1 = teacherSlot e2 \<and> te_classId e2 \<noteq> te_classId e1
            \<and> m = teacherConflictMessage e1 e2"
proof -
  let ?es = "getTimetableEntries st"
  let ?cs1 = "teacherLoop ?es ?es Map.empty []"
  let ?cs2 = "roomLoop ?es Map.empty ?cs1"
  from assms(1) have "m \<in> set (frequencyLoop st (countLoop ?es Map.empty) (getClasses st None) ?cs2)"
    by (simp add: validateTimetable_def Let_def)
  from frequencyLoop_sound [OF this] assms(2) have "m \<in> set ?cs2"
    using other_messages_not_teacher by blast
  from roomLoop_sound [OF this] assms(2) have "m \<in> set ?cs1"
    using other_messages_not_teacher by blast
  from teacherLoop_sound [OF this] show ?thesis by simp
qed

subsection \<open>Insufficient periods\<close>

text \<open>
  C9. For every class-subject assignment (of a class and a subject in their tables) whose
  weekly frequency exceeds the number of active entries of that class and subject,
  \<open>validateTimetable\<close> puts into the conflict list the string that starts with
  \<open>Insufficient periods\<close> and cites the required count and the actual count; and
  \<open>isValid\<close> is true exactly when the conflict list is empty.
\<close>

theorem insufficient_periods_reported:
  "(\<forall>a \<in> set (db_assignments st). \<forall>classData \<in> set (db_classes st). \<forall>s \<in> set (db_subjects st).
      cls_id classData = csa_classId a \<and> sub_id s = csa_subjectId a
      \<and> int (matchingEntries st (csa_classId a) (csa_subjectId a)) < csa_weeklyFrequency a \<longrightarrow>
      (''Insufficient periods: Class '' @ cls_grade classData @ ''-'' @ cls_section classData
       @ '' needs '' @ show_int (csa_weeklyFrequency a) @ '' periods of ''
       @ (if sub_name s \<noteq> [] then sub_name s else ''Unknown Subject'')
       @ '' but only has '' @ show_nat (matchingEntries st (csa_classId a) (csa_subjectId a)))
        \<in> set (conflicts (validateTimetable st)))
   \<and> isValid (validateTimetable st) = (conflicts (validateTimetable st) = [])"
proof (intro conjI ballI impI)
  fix a classData s
  assume a: "a \<in> set (db_assignments st)" and c: "classData \<in> set (db_classes st)"
    and s: "s \<in> set (db_subjects st)"
    and h: "cls_id classData = csa_classId a \<and> sub_id s = csa_subjectId a
      \<and> int (matchingEntries st (csa_classId a) (csa_subjectId a)) < csa_weeklyFrequency a"
  define row where "row = \<lparr>ar_subjectId = csa_subjectId a, ar_weeklyFrequency = csa_weeklyFrequency a,
          ar_assignedTeacherId = csa_assignedTeacherId a, ar_subjectName = sub_name s\<rparr>"
  define cnt where "cnt = countLoop (getTimetableEntries st) Map.empty"
  have fields: "ar_subjectId row = csa_subjectId a" "ar_weeklyFrequency row = csa_weeklyFrequency a"
    "ar_subjectName row = sub_name s"
    by (simp_all add: row_def)
  have row: "row \<in> set (getClassSubjectAssignments st (cls_id classData))"
    unfolding row_def using row_of_assignment [OF a _ s] h by simp
  have n: "actualCountOf cnt (cls_id classData) (ar_subjectId row)
             = matchingEntries st (csa_classId a) (csa_subjectId a)"
    using h by (simp add: validate_counts cnt_def fields)
  have less: "int (actualCountOf cnt (cls_id classData) (ar_subjectId row)) < ar_weeklyFrequency row"
    unfolding n using h by (simp add: fields)
  have cls: "classData \<in> set (getClasses st None)"
    using c by (simp add: getClasses_def truthy_def)
  have eq: "insufficientMessage classData row (actualCountOf cnt (cls_id classData) (ar_subjectId row))
      = ''Insufficient periods: Class '' @ cls_grade classData @ ''-'' @ cls_section classData
       @ '' needs '' @ show_int (csa_weeklyFrequency a) @ '' periods of ''
       @ (if sub_name s \<noteq> [] then sub_name s else ''Unknown Subject'')
       @ '' but only has '' @ show_nat (matchingEntries st (csa_classId a) (csa_subjectId a))"
    unfolding n by (simp only: insufficientMessage_def subjectNameOf_def fields)
  have "insufficientMessage classData row (actualCountOf cnt (cls_id classData) (ar_subjectId row))
          \<in> set (conflicts (validateTimetable st))"
    using frequencyLoop_reports [OF cls row less]
    by (simp add: validateTimetable_def Let_def cnt_def)
  then show "(''Insufficient periods: Class '' @ cls_grade classData @ ''-'' @ cls_section classData
       @ '' needs '' @ show_int (csa_weeklyFrequency a) @ '' periods of ''
       @ (if sub_name s \<noteq> [] then sub_name s else ''Unknown Subject'')
       @ '' but only has '' @ show_nat (matchingEntries st (csa_classId a) (csa_subjectId a)))
        \<in> set (conflicts (validateTimetable st))"
    unfolding eq .
next
  show "isValid (validateTimetable st) = (conflicts (validateTimetable st) = [])"
    by (simp add: validateTimetable_def Let_def)
qed

text \<open>Five periods required, three active entries present.\<close>

theorem insufficient_periods_reported_witness:
  "assignmentOf ''cA'' ''s1'' 5 \<in> set (db_assignments underProvided)
   \<and> classIn ''cA'' ''A'' \<in> set (db_classes underProvided)
   \<and> subjectIn ''s1'' ''A'' \<in> set (db_subjects underProvided)
   \<and> matchingEntries underProvided ''cA'' ''s1'' = 3
   \<and> ''Insufficient periods: Class 5-A needs 5 periods of Maths but only has 3''
        \<in> set (conflicts (validateTimetable underProvided))
   \<and> \<not> isValid (validateTimetable underProvided)"
proof -
  have a: "assignmentOf ''cA'' ''s1'' 5 \<in> set (db_assignments underProvided)"
    and c: "classIn ''cA'' ''A'' \<in> set (db_classes underProvided)"
    and s: "subjectIn ''s1'' ''A'' \<in> set (db_subjects underProvided)"
    by (simp_all add: underProvided_def)
  have n: "matchingEntries underProvided ''cA'' ''s1'' = 3"
    by code_simp
  have digits: "show_int 5 = ''5''" "show_nat 3 = ''3''"
    by code_simp+
  have pre: "cls_id (classIn ''cA'' ''A'') = csa_classId (assignmentOf ''cA'' ''s1'' 5)
      \<and> sub_id (subjectIn ''s1'' ''A'') = csa_subjectId (assignmentOf ''cA'' ''s1'' 5)
      \<and> int (matchingEntries underProvided (csa_classId (assignmentOf ''cA'' ''s1'' 5))
                (csa_subjectId (assignmentOf ''cA'' ''s1'' 5)))
          < csa_weeklyFrequency (assignmentOf ''cA'' ''s1'' 5)"
    by (simp add: assignmentOf_def classIn_def subjectIn_def n)
  from insufficient_periods_reported [of underProvided, THEN conjunct1, THEN bspec, OF a,
      THEN bspec, OF c, THEN bspec, OF s, THEN mp, OF pre]
  have m: "''Insufficient periods: Class 5-A needs 5 periods of Maths but only has 3''
        \<in> set (conflicts (validateTimetable underProvided))"
    by (simp add: assignmentOf_def classIn_def subjectIn_def n digits)
  moreover from insufficient_periods_reported [of underProvided, THEN conjunct2] m
  have "\<not> isValid (validateTimetable underProvided)" by auto
  ultimately show ?thesis using a c s n by simp
qed

subsection \<open>Teacher conflicts\<close>

text \<open>
  C10. Every teacher-conflict string in the result of \<open>validateTimetable\<close> is the message
  for two active entries with the same teacher, day and period and different classes. When
  all active entries that share a teacher, day and period belong to one class, the result
  has no teacher-conflict string.
\<close>

theorem teacher_conflict_needs_two_classes:
  "(\<forall>m \<in> set (conflicts (validateTimetable st)). prefix ''Teacher conflict: '' m \<longrightarrow>
      (\<exists>e1 \<in> set (getTimetableEntries st). \<exists>e2 \<in> set (getTimetableEntries st).
         teacherSlot e1 = teacherSlot e2 \<and> te_classId e1 \<noteq> te_classId e2
         \<and> m = teacherConflictMessage e1 e2))
   \<and> ((\<forall>e1 \<in> set (getTimetableEntries st). \<forall>e2 \<in> set (getTimetableEntries st).
          teacherSlot e1 = teacherSlot e2 \<longrightarrow> te_classId e1 = te_classId e2) \<longrightarrow>
       (\<forall>m \<in> set (conflicts (validateTimetable st)). \<not> prefix ''Teacher conflict: '' m))"
proof -
  have one: "\<exists>e1 \<in> set (getTimetableEntries st). \<exists>e2 \<in> set (getTimetableEntries st).
         teacherSlot e1 = teacherSlot e2 \<and> te_classId e1 \<noteq> te_classId e2
         \<and> m = teacherConflictMessage e1 e2"
    if "m \<in> set (conflicts (validateTimetable st))" "prefix ''Teacher conflict: '' m" for m
    using conflicts_teacher_messages [OF that] by metis
  then show ?thesis by blast
qed

text \<open>
  The same teacher and slot in classes \<open>cA\<close> and \<open>cB\<close> gives a teacher-conflict message
  that names both; the same entry twice in class \<open>cA\<close> gives a conflict list whose only
  string is about insufficient periods.
\<close>

theorem teacher_conflict_needs_two_classes_witness:
  "teacherConflictMessage (entryOf ''cB'' ''tA'' ''monday'' 1 True) (entryOf ''cA'' ''tA'' ''monday'' 1 True)
     \<in> set (conflicts (validateTimetable (entriesOnly
          [entryOf ''cA'' ''tA'' ''monday'' 1 True, entryOf ''cB'' ''tA'' ''monday'' 1 True])))
   \<and> prefix ''Teacher conflict: ''
        (teacherConflictMessage (entryOf ''cB'' ''tA'' ''monday'' 1 True)
                                (entryOf ''cA'' ''tA'' ''monday'' 1 True))
   \<and> (\<exists>e1 \<in> set (getTimetableEntries (entriesOnly
          [entryOf ''cA'' ''tA'' ''monday'' 1 True, entryOf ''cB'' ''tA'' ''monday'' 1 True])).
       \<exists>e2 \<in> set (getTimetableEntries (entriesOnly
          [entryOf ''cA'' ''tA'' ''monday'' 1 True, entryOf ''cB'' ''tA'' ''monday'' 1 True])).
         teacherSlot e1 = teacherSlot e2 \<and> te_classId e1 \<noteq> te_classId e2
         \<and> teacherConflictMessage (entryOf ''cB'' ''tA'' ''monday'' 1 True)
                                   (entryOf ''cA'' ''tA'' ''monday'' 1 True)
             = teacherConflictMessage e1 e2)
   \<and> getTimetableEntries sameClassTwice
       = [entryOf ''cA'' ''tA'' ''monday'' 1 True, entryOf ''cA'' ''tA'' ''monday'' 1 True]
   \<and> conflicts (validateTimetable sameClassTwice) \<noteq> []
   \<and> \<not> prefix ''Teacher conflict: '' (hd (conflicts (validateTimetable sameClassTwice)))"
proof -
  let ?two = "entriesOnly [entryOf ''cA'' ''tA'' ''monday'' 1 True, entryOf ''cB'' ''tA'' ''monday'' 1 True]"
  let ?m = "teacherConflictMessage (entryOf ''cB'' ''tA'' ''monday'' 1 True)
                                   (entryOf ''cA'' ''tA'' ''monday'' 1 True)"
  have run: "conflicts (validateTimetable ?two) = [?m]"
    by code_simp
  then have m: "?m \<in> set (conflicts (validateTimetable ?two))"
    by simp
  have p: "prefix ''Teacher conflict: '' ?m"
    by (rule teacher_message_prefix)
  from teacher_conflict_needs_two_classes [of ?two, THEN conjunct1, THEN bspec, OF m, THEN mp, OF p]
  have pair: "\<exists>e1 \<in> set (getTimetableEntries ?two). \<exists>e2 \<in> set (getTimetableEntries ?two).
         teacherSlot e1 = teacherSlot e2 \<and> te_classId e1 \<noteq> te_classId e2
         \<and> ?m = teacherConflictMessage e1 e2" .
  have es: "getTimetableEntries sameClassTwice
       = [entryOf ''cA'' ''tA'' ''monday'' 1 True, entryOf ''cA'' ''tA'' ''monday'' 1 True]"
    by (simp add: getTimetableEntries_def sameClassTwice_def entryOf_def)
  have same: "\<forall>e1 \<in> set (getTimetableEntries sameClassTwice).
      \<forall>e2 \<in> set (getTimetableEntries sameClassTwice).
        teacherSlot e1 = teacherSlot e2 \<longrightarrow> te_classId e1 = te_classId e2"
    unfolding es by simp
  have ne: "conflicts (validateTimetable sameClassTwice) \<noteq> []"
    by code_simp
  then have "hd (conflicts (validateTimetable sameClassTwice))
               \<in> set (conflicts (validateTimetable sameClassTwice))"
    by simp
  with teacher_conflict_needs_two_classes [of sameClassTwice, THEN conjunct2, THEN mp, OF same]
  have none: "\<not> prefix ''Teacher conflict: '' (hd (conflicts (validateTimetable sameClassTwice)))"
    by blast
  from m p pair es ne none show ?thesis by blast
qed

end
